theory Spec2Isabelle
  imports Complex_Main "HOL-Library.Sublist"
begin

section \<open>Strings, numbers and the ranked-info pattern\<close>

text \<open>
  JavaScript strings are modelled as \<open>string\<close> (lists of 8-bit characters), so the model
  covers ASCII engine output. Option values and engine scores are JavaScript numbers; the
  model takes them as integers, which is what the regular expression's digit groups and the
  documented option ranges produce. \<open>parseInt\<close> is exact on the integers a JavaScript
  number represents exactly (below \<open>2^53\<close> in magnitude); the model parses every digit
  string exactly.
\<close>

definition startsWith :: "string \<Rightarrow> string \<Rightarrow> bool" where
  \<comment> \<open>\<open>s.startsWith(p)\<close>\<close>
  "startsWith p s = (take (length p) s = p)"

definition is_space :: "char \<Rightarrow> bool" where
  \<comment> \<open>the class \<open>\s\<close> (and the characters removed by \<open>trim\<close>), within ASCII\<close>
  "is_space c = (c \<in> set [CHR '' '', CHR 0x09, CHR 0x0A, CHR 0x0B, CHR 0x0C, CHR 0x0D])"

definition is_digit :: "char \<Rightarrow> bool" where
  \<comment> \<open>the class \<open>\d\<close>\<close>
  "is_digit c = (c \<in> set ''0123456789'')"

definition is_dot :: "char \<Rightarrow> bool" where
  \<comment> \<open>the class \<open>.\<close>: any character but a line terminator\<close>
  "is_dot c = (c \<noteq> CHR 0x0A \<and> c \<noteq> CHR 0x0D)"

definition trim :: "string \<Rightarrow> string" where
  "trim s = rev (dropWhile is_space (rev (dropWhile is_space s)))"

text \<open>
  \<open>s.split(" ")\<close>: the pieces between single spaces; consecutive spaces give empty pieces.
\<close>

fun split_char :: "char \<Rightarrow> string \<Rightarrow> string \<Rightarrow> string list" where
  "split_char d cur [] = [cur]"
| "split_char d cur (c # cs) =
     (if c = d then cur # split_char d [] cs else split_char d (cur @ [c]) cs)"

text \<open>
  \<open>s.split(/\s+/)\<close>: the pieces between maximal runs of white space. The empty string has
  no separator in it and gives the one-element array \<open>[""]\<close>.
\<close>

function split_ws :: "string \<Rightarrow> string \<Rightarrow> string list" where
  "split_ws cur [] = [cur]"
| "split_ws cur (c # cs) =
     (if is_space c then cur # split_ws [] (dropWhile is_space cs)
      else split_ws (cur @ [c]) cs)"
  by pat_completeness auto
termination
  by (relation "measure (\<lambda>(cur, s). length s)")
    (auto simp: length_dropWhile_le less_Suc_eq_le)

definition digit_val :: "char \<Rightarrow> int" where
  "digit_val c = of_char c - 48"

definition parse_digits :: "string \<Rightarrow> int" where
  "parse_digits ds = foldl (\<lambda>a c. 10 * a + digit_val c) 0 ds"

definition parseInt :: "string \<Rightarrow> int" where
  \<comment> \<open>\<open>parseInt(s, 10)\<close> on a string of the shape \<open>-?\d+\<close>\<close>
  "parseInt s = (case s of CHR ''-'' # ds \<Rightarrow> - parse_digits ds | _ \<Rightarrow> parse_digits s)"

function show_digits :: "int \<Rightarrow> string" where
  "show_digits n =
     (if n < 10 then [''0123456789'' ! nat n]
      else show_digits (n div 10) @ [''0123456789'' ! nat (n mod 10)])"
  by pat_completeness auto
termination
  by (relation "measure nat") auto

definition show_int :: "int \<Rightarrow> string" where
  \<comment> \<open>an integer inside a template literal\<close>
  "show_int i = (if i < 0 then CHR ''-'' # show_digits (- i) else show_digits i)"

subsection \<open>Backtracking match of the ranked-info pattern\<close>

text \<open>
  \<open>message.match(/multipv\s+(\d+).*score (cp|mate) (-?\d+).*pv\s+(.+)/)\<close>.
  A quantifier over a character class first takes the longest run and gives characters back
  one at a time until the rest of the pattern matches; \<open>greedy P n s\<close> lists the ways to
  split \<open>s\<close> after a run of at least \<open>n\<close> characters of class \<open>P\<close>, longest first, and
  \<open>first_some\<close> takes the first split for which the rest of the pattern succeeds.
\<close>

fun first_some :: "('a \<Rightarrow> 'b option) \<Rightarrow> 'a list \<Rightarrow> 'b option" where
  "first_some f [] = None"
| "first_some f (x # xs) = (case f x of Some y \<Rightarrow> Some y | None \<Rightarrow> first_some f xs)"

definition greedy :: "(char \<Rightarrow> bool) \<Rightarrow> nat \<Rightarrow> string \<Rightarrow> (string \<times> string) list" where
  "greedy P n s =
     map (\<lambda>k. (take k s, drop k s)) (rev [n ..< Suc (length (takeWhile P s))])"

definition lit :: "string \<Rightarrow> string \<Rightarrow> string option" where
  \<comment> \<open>a literal: the rest of the input after it\<close>
  "lit w s = (if startsWith w s then Some (drop (length w) s) else None)"

definition match_pv :: "string \<Rightarrow> string option" where
  \<comment> \<open>\<open>.*pv\s+(.+)\<close>, giving group 4\<close>
  "match_pv s =
     first_some (\<lambda>(skipped, s1).
       case lit ''pv'' s1 of None \<Rightarrow> None | Some s2 \<Rightarrow>
       first_some (\<lambda>(ws, s3).
         first_some (\<lambda>(g4, rest). Some g4) (greedy is_dot 1 s3))
       (greedy is_space 1 s2))
     (greedy is_dot 0 s)"

definition match_value :: "string \<Rightarrow> (string \<times> string) option" where
  \<comment> \<open>\<open>(-?\d+).*pv\s+(.+)\<close>, giving groups 3 and 4\<close>
  "match_value s =
     first_some (\<lambda>(sign, s1).
       first_some (\<lambda>(ds, s2).
         case match_pv s2 of None \<Rightarrow> None | Some g4 \<Rightarrow> Some (sign @ ds, g4))
       (greedy is_digit 1 s1))
     ((case s of CHR ''-'' # s' \<Rightarrow> [(''-'', s')] | _ \<Rightarrow> []) @ [([], s)])"

definition match_score :: "string \<Rightarrow> (string \<times> string \<times> string) option" where
  \<comment> \<open>\<open>.*score (cp|mate) (-?\d+).*pv\s+(.+)\<close>, giving groups 2, 3 and 4\<close>
  "match_score s =
     first_some (\<lambda>(skipped, s1).
       case lit ''score '' s1 of None \<Rightarrow> None | Some s2 \<Rightarrow>
       first_some (\<lambda>ty.
         case lit ty s2 of None \<Rightarrow> None | Some s3 \<Rightarrow>
         (case lit '' '' s3 of None \<Rightarrow> None | Some s4 \<Rightarrow>
          (case match_value s4 of None \<Rightarrow> None | Some (g3, g4) \<Rightarrow> Some (ty, g3, g4))))
       [''cp'', ''mate''])
     (greedy is_dot 0 s)"

definition match_here :: "string \<Rightarrow> (string \<times> string \<times> string \<times> string) option" where
  \<comment> \<open>the whole pattern, anchored at the start of \<open>s\<close>\<close>
  "match_here s =
     (case lit ''multipv'' s of None \<Rightarrow> None | Some s1 \<Rightarrow>
      first_some (\<lambda>(ws, s2).
        first_some (\<lambda>(g1, s3).
          case match_score s3 of None \<Rightarrow> None | Some (g2, g3, g4) \<Rightarrow> Some (g1, g2, g3, g4))
        (greedy is_digit 1 s2))
      (greedy is_space 1 s1))"

definition multipvMatch :: "string \<Rightarrow> (string \<times> string \<times> string \<times> string) option" where
  \<comment> \<open>the leftmost match: the four captured groups, or \<open>None\<close> for \<open>null\<close>\<close>
  "multipvMatch message =
     first_some (\<lambda>i. match_here (drop i message)) [0 ..< Suc (length message)]"


section \<open>Data model\<close>

record StockfishOptions =
  depth :: "int option"
  time :: "int option"
  movetime :: "int option"
  nodes :: "int option"
  stockfishUrl :: "string option"
  multiPV :: "int option"
  skillLevel :: "int option"
  contempt :: "int option"
  threads :: "int option"
  hash :: "int option"

text \<open>An absent option is \<open>undefined\<close>; the empty options object has every field absent.\<close>

definition no_options :: StockfishOptions where
  "no_options = \<lparr>depth = None, time = None, movetime = None, nodes = None,
     stockfishUrl = None, multiPV = None, skillLevel = None, contempt = None,
     threads = None, hash = None\<rparr>"

text \<open>\<open>evaluation: number | string\<close>: a number of pawns or a mate tag.\<close>

datatype evaluation = Number rat | Tag string

record AnalysisLine =
  evaluation :: evaluation
  line :: "string list"

datatype EngineMode = Idle | Evaluate | Stream

datatype error = EnvironmentError | BusyError | InvalidPosition

text \<open>
  The rules engine (the \<open>Chess\<close> class of chess.js, not part of this repository) is a
  parameter: \<open>load\<close> is the constructor \<open>new Chess(position)\<close>, which throws on a string it
  does not accept (\<open>None\<close>); \<open>move\<close> applies a move to a board and returns the move's SAN
  and the board after it, or throws on a move it rejects (\<open>None\<close>); \<open>fen\<close> is the position
  string of a board. A returned move object is truthy, so the source's test
  \<open>if (moveObj)\<close> succeeds whenever \<open>move\<close> returns.
\<close>

record 'b rules =
  load :: "string \<Rightarrow> 'b option"
  move :: "'b \<Rightarrow> string \<Rightarrow> (string \<times> 'b) option"
  fen :: "'b \<Rightarrow> string"

text \<open>
  Web Workers. A worker object carries its message listeners in registration order: the
  listener installed by \<open>_initializeWorker\<close> (a closure over the session's options) and the
  \<open>messageHandler\<close> of an \<open>evaluatePosition\<close> call (a closure over its promise and its
  timeout). A terminated worker delivers no further events.
\<close>

datatype wlistener = HandleStockfishMessage StockfishOptions | MessageHandler nat

record worker =
  url :: string
  wlisteners :: "wlistener list"
  alive :: bool

text \<open>
  The callbacks given to \<open>setTimeout\<close>: the timeout of an \<open>evaluatePosition\<close> call (its
  promise, the duration in milliseconds that its warning reports) and the two \<open>checkUciOk\<close>
  polls. A pending timer is a callback with the time, in milliseconds, at which it is due.
\<close>

datatype callback = Timeout nat int | EvaluateCheckUciOk StockfishOptions | StreamCheckUciOk

type_synonym timer = "int \<times> callback"

datatype outcome = Resolved "AnalysisLine list" | Rejected error

datatype console_entry = Warn string | Error string

text \<open>
  The controller and its environment. \<open>heap\<close> holds the \<open>Chess\<close> objects; the controller
  itself extends \<open>Chess\<close> and is the object at address \<open>self\<close>. \<open>analysisLines\<close> is a
  JavaScript array with holes (\<open>None\<close>). \<open>listeners\<close> are the subscribers of the
  \<open>analysis\<close> event and \<open>delivered\<close> records each call of a subscriber with its payload.
  \<open>promises\<close> holds the state of the promise of each \<open>evaluatePosition\<close> call
  (\<open>None\<close> while pending). \<open>now\<close> is the clock, in milliseconds, and \<open>timers\<close> holds
  the pending timers in the order of their registration.
\<close>

record 'b state =
  heap :: "'b list"
  lines :: "AnalysisLine list"
  stockfish :: "nat option"
  listeners :: "nat list"
  analysisLines :: "AnalysisLine option list"
  stockfishWorkerUrl :: "string option"
  isuciok :: bool
  mode :: EngineMode
  workerSupport :: bool
  workers :: "worker list"
  posted :: "(nat \<times> string) list"
  objectUrls :: nat
  revoked :: "string list"
  timers :: "timer list"
  promises :: "outcome option list"
  console :: "console_entry list"
  delivered :: "(nat \<times> AnalysisLine list) list"
  now :: int

definition self :: nat where
  "self = 0"

definition new_ChessEngine :: "'b \<Rightarrow> bool \<Rightarrow> 'b state" where
  \<comment> \<open>\<open>new ChessEngine()\<close> with the board \<open>b0\<close> made by \<open>super()\<close>, in an environment with or
      without Web Worker support\<close>
  "new_ChessEngine b0 support =
     \<lparr>heap = [b0], lines = [], stockfish = None, listeners = [], analysisLines = [],
      stockfishWorkerUrl = None, isuciok = False, mode = Idle, workerSupport = support,
      workers = [], posted = [], objectUrls = 0, revoked = [], timers = [], promises = [],
      console = [], delivered = [], now = 0\<rparr>"

definition truthy :: "int option \<Rightarrow> bool" where
  \<comment> \<open>truthiness of an optional number: \<open>undefined\<close> and \<open>0\<close> are falsy\<close>
  "truthy v = (case v of None \<Rightarrow> False | Some n \<Rightarrow> n \<noteq> 0)"

definition truthy_str :: "string option \<Rightarrow> bool" where
  \<comment> \<open>truthiness of an optional string: \<open>undefined\<close>, \<open>null\<close> and \<open>""\<close> are falsy\<close>
  "truthy_str v = (case v of None \<Rightarrow> False | Some u \<Rightarrow> u \<noteq> [])"

fun filter_Boolean :: "'a option list \<Rightarrow> 'a list" where
  \<comment> \<open>\<open>arr.filter(Boolean)\<close> on an array of objects with holes\<close>
  "filter_Boolean [] = []"
| "filter_Boolean (None # xs) = filter_Boolean xs"
| "filter_Boolean (Some v # xs) = v # filter_Boolean xs"

definition array_set :: "'a option list \<Rightarrow> int \<Rightarrow> 'a \<Rightarrow> 'a option list" where
  \<comment> \<open>\<open>arr[i] = v\<close>: an index past the end extends the array with holes; a key that is not an
      array index (negative, or \<open>2^32 - 1\<close> and above) becomes a plain property, which
      neither \<open>filter\<close> nor the spread operator reads\<close>
  "array_set xs i v =
     (if i < 0 \<or> 4294967295 \<le> i then xs
      else if nat i < length xs then xs[nat i := Some v]
      else xs @ replicate (nat i - length xs) None @ [Some v])"

definition timer_delay :: "int \<Rightarrow> int" where
  \<comment> \<open>the delay that \<open>setTimeout\<close> reads from its second argument: the argument as a
      32-bit signed integer, a negative one counting as 0\<close>
  "timer_delay ms =
     (let v = (ms + 2147483648) mod 4294967296 - 2147483648 in if v < 0 then 0 else v)"

definition setTimeout :: "callback \<Rightarrow> int \<Rightarrow> 'b state \<Rightarrow> 'b state" where
  "setTimeout handler ms s = s\<lparr>timers := timers s @ [(now s + timer_delay ms, handler)]\<rparr>"

section \<open>The controller\<close>

subsection \<open>Event emitter\<close>

definition on :: "nat \<Rightarrow> 'b state \<Rightarrow> 'b state" where
  "on listener s = s\<lparr>listeners := listeners s @ [listener]\<rparr>"

definition off :: "nat \<Rightarrow> 'b state \<Rightarrow> 'b state" where
  "off listener s = s\<lparr>listeners := filter (\<lambda>l. l \<noteq> listener) (listeners s)\<rparr>"

definition emit :: "AnalysisLine list \<Rightarrow> 'b state \<Rightarrow> 'b state" where
  "emit data s = s\<lparr>delivered := delivered s @ map (\<lambda>l. (l, data)) (listeners s)\<rparr>"

subsection \<open>Notation translation\<close>

text \<open>
  The loop of \<open>convertMovesToSAN\<close> over the board at address \<open>chess\<close>: a rejected move is
  caught, logged, and ends the loop.
\<close>

fun for_moves :: "'b rules \<Rightarrow> nat \<Rightarrow> string list \<Rightarrow> string list \<Rightarrow> 'b state \<Rightarrow> string list \<times> 'b state" where
  "for_moves R chess [] convertedMoves s = (convertedMoves, s)"
| "for_moves R chess (mv # rest) convertedMoves s =
     (case move R (heap s ! chess) mv of
        None \<Rightarrow> (convertedMoves, s\<lparr>console := console s @ [Error ''Error converting move:'']\<rparr>)
      | Some (san, b') \<Rightarrow>
          for_moves R chess rest (convertedMoves @ [san]) (s\<lparr>heap := (heap s)[chess := b']\<rparr>))"

definition convertMovesToSAN :: "'b rules \<Rightarrow> string list \<Rightarrow> string \<Rightarrow> 'b state \<Rightarrow> (error + string list) \<times> 'b state" where
  "convertMovesToSAN R moves position s =
     (case load R position of
        None \<Rightarrow> (Inl InvalidPosition, s)
      | Some b \<Rightarrow>
          (let chess = length (heap s);
               (convertedMoves, s') = for_moves R chess moves [] (s\<lparr>heap := heap s @ [b]\<rparr>)
           in (Inr convertedMoves, s')))"

subsection \<open>Commands and teardown\<close>

definition sendCommand :: "string \<Rightarrow> 'b state \<Rightarrow> 'b state" where
  \<comment> \<open>\<open>_sendCommand\<close>: \<open>postMessage\<close> to the worker, if there is one\<close>
  "sendCommand command s =
     (case stockfish s of
        Some w \<Rightarrow> s\<lparr>posted := posted s @ [(w, command)]\<rparr>
      | None \<Rightarrow> s)"

definition setOptions :: "StockfishOptions \<Rightarrow> 'b state \<Rightarrow> 'b state" where
  \<comment> \<open>\<open>_setOptions\<close>: each \<open>if (options.x)\<close> tests the truthiness of the value\<close>
  "setOptions options s =
     (let s1 = (if truthy (multiPV options)
                then sendCommand (''setoption name MultiPV value '' @ show_int (the (multiPV options))) s
                else s);
          s2 = (if truthy (skillLevel options)
                then sendCommand (''setoption name Skill Level value '' @ show_int (the (skillLevel options))) s1
                else s1);
          s3 = (if truthy (contempt options)
                then sendCommand (''setoption name Contempt value '' @ show_int (the (contempt options))) s2
                else s2);
          s4 = (if truthy (threads options)
                then sendCommand (''setoption name Threads value '' @ show_int (the (threads options))) s3
                else s3)
      in if truthy (hash options)
         then sendCommand (''setoption name Hash value '' @ show_int (the (hash options))) s4
         else s4)"

definition terminate :: "'b state \<Rightarrow> 'b state" where
  \<comment> \<open>\<open>URL.revokeObjectURL\<close> is recorded in \<open>revoked\<close>, \<open>Worker.terminate\<close> in \<open>alive\<close>\<close>
  "terminate s =
     (let s1 = (case stockfish s of
                  Some w \<Rightarrow>
                    (sendCommand ''quit'' s)
                      \<lparr>workers := (workers s)[w := (workers s ! w)\<lparr>alive := False\<rparr>],
                       stockfish := None\<rparr>
                | None \<Rightarrow> s);
          s2 = (if truthy_str (stockfishWorkerUrl s1)
                   \<and> startsWith ''blob:'' (the (stockfishWorkerUrl s1))
                then s1\<lparr>revoked := revoked s1 @ [the (stockfishWorkerUrl s1)],
                        stockfishWorkerUrl := None\<rparr>
                else s1)
      in s2\<lparr>isuciok := False, mode := Idle\<rparr>)"


subsection \<open>Engine output\<close>

definition adjustedEval :: "string \<Rightarrow> int \<Rightarrow> string option \<Rightarrow> evaluation" where
  \<comment> \<open>the evaluation stored for a rank update, from the score type, the score and the side
      to move\<close>
  "adjustedEval evalType evalValue sideToMove =
     (if evalType = ''cp''
      then Number (if sideToMove = Some ''b'' then (- of_int evalValue) / 100
                   else of_int evalValue / 100)
      else (let mateInMoves = \<bar>evalValue\<bar>
            in if (evalValue > 0 \<and> sideToMove = Some ''w'')
                  \<or> (evalValue < 0 \<and> sideToMove = Some ''b'')
               then Tag (''M'' @ show_int mateInMoves)
               else Tag (''M-'' @ show_int mateInMoves)))"

definition sideToMove_of :: "string \<Rightarrow> string option" where
  \<comment> \<open>\<open>fen.split(" ")[1]\<close>, \<open>None\<close> for \<open>undefined\<close>\<close>
  "sideToMove_of position =
     (let fields = split_char CHR '' '' [] position
      in if 1 < length fields then Some (fields ! 1) else None)"

definition handleStockfishMessage :: "'b rules \<Rightarrow> string \<Rightarrow> StockfishOptions \<Rightarrow> 'b state \<Rightarrow> 'b state" where
  \<comment> \<open>\<open>_handleStockfishMessage\<close>; an exception of \<open>convertMovesToSAN\<close> leaves the listener\<close>
  "handleStockfishMessage R message options s =
     (if message = ''uciok'' then setOptions options (s\<lparr>isuciok := True\<rparr>)
      else if startsWith ''bestmove'' message
      then (if mode s = Stream then terminate s else s)
      else
        (let sideToMove = sideToMove_of (fen R (heap s ! self))
         in case multipvMatch message of
              None \<Rightarrow> s
            | Some (g1, g2, g3, g4) \<Rightarrow>
                (let pvIndex = parseInt g1 - 1;
                     evalType = g2;
                     evalValue = parseInt g3;
                     pvLine = split_ws [] (trim g4)
                 in if length pvLine > 0
                    then (case convertMovesToSAN R pvLine (fen R (heap s ! self)) s of
                            (Inl e, s') \<Rightarrow> s'
                          | (Inr sanLine, s') \<Rightarrow>
                              (let s'' = s'\<lparr>analysisLines :=
                                     array_set (analysisLines s') pvIndex
                                       \<lparr>evaluation = adjustedEval evalType evalValue sideToMove,
                                        line = sanLine\<rparr>\<rparr>
                               in emit (filter_Boolean (analysisLines s'')) s''))
                    else s)))"

subsection \<open>Worker creation\<close>

definition initializeWorker :: "StockfishOptions \<Rightarrow> 'b state \<Rightarrow> error + 'b state" where
  \<comment> \<open>\<open>Inl\<close> is the exception thrown when the environment has no Web Workers; the blob made
      from the bundled engine code gets a fresh \<open>blob:\<close> URL\<close>
  "initializeWorker options s =
     (case stockfish s of
        Some w \<Rightarrow> Inr s
      | None \<Rightarrow>
          if \<not> workerSupport s then Inl EnvironmentError
          else
            (let s1 = (if truthy_str (stockfishUrl options)
                       then s\<lparr>stockfishWorkerUrl := stockfishUrl options\<rparr>
                       else if \<not> truthy_str (stockfishWorkerUrl s)
                       then s\<lparr>stockfishWorkerUrl := Some (''blob:'' @ show_int (int (objectUrls s))),
                              objectUrls := Suc (objectUrls s)\<rparr>
                       else s);
                 w = length (workers s1);
                 s2 = s1\<lparr>workers := workers s1 @
                           [\<lparr>url = the (stockfishWorkerUrl s1),
                             wlisteners = [HandleStockfishMessage options],
                             alive = True\<rparr>],
                         stockfish := Some w,
                         isuciok := False\<rparr>
             in Inr (sendCommand ''uci'' s2)))"

definition addEventListener :: "nat \<Rightarrow> wlistener \<Rightarrow> 'b state \<Rightarrow> 'b state" where
  "addEventListener w l s =
     s\<lparr>workers := (workers s)[w := (workers s ! w)\<lparr>wlisteners := wlisteners (workers s ! w) @ [l]\<rparr>]\<rparr>"

definition removeEventListener :: "nat \<Rightarrow> wlistener \<Rightarrow> 'b state \<Rightarrow> 'b state" where
  "removeEventListener w l s =
     s\<lparr>workers := (workers s)[w := (workers s ! w)
          \<lparr>wlisteners := filter (\<lambda>l'. l' \<noteq> l) (wlisteners (workers s ! w))\<rparr>]\<rparr>"

subsection \<open>Streaming analysis\<close>

datatype completion = Returned | Threw error

definition stream_checkUciOk :: "'b rules \<Rightarrow> 'b state \<Rightarrow> 'b state" where
  \<comment> \<open>the closure \<open>checkUciOk\<close> of \<open>startAnalysis\<close>\<close>
  "stream_checkUciOk R s =
     (if isuciok s
      then sendCommand ''go infinite'' (sendCommand (''position fen '' @ fen R (heap s ! self)) s)
      else setTimeout StreamCheckUciOk 50 s)"

definition startAnalysis :: "'b rules \<Rightarrow> StockfishOptions \<Rightarrow> 'b state \<Rightarrow> completion \<times> 'b state" where
  "startAnalysis R options s =
     (if mode s \<noteq> Idle
      then (Returned,
            s\<lparr>console := console s @ [Warn ''Engine is busy. Please stop the current analysis first.'']\<rparr>)
      else case initializeWorker options (s\<lparr>mode := Stream\<rparr>) of
             Inl e \<Rightarrow> (Threw e, s\<lparr>mode := Stream\<rparr>)
           | Inr s1 \<Rightarrow> (Returned, stream_checkUciOk R (s1\<lparr>analysisLines := []\<rparr>)))"

definition stopAnalysis :: "'b state \<Rightarrow> 'b state" where
  "stopAnalysis s = (if mode s = Stream then sendCommand ''stop'' s else s)"

subsection \<open>One-shot evaluation\<close>

definition settle :: "nat \<Rightarrow> outcome \<Rightarrow> 'b state \<Rightarrow> 'b state" where
  \<comment> \<open>\<open>resolve\<close> and \<open>reject\<close>: only the first call on a promise has an effect\<close>
  "settle p v s =
     (if p < length (promises s) \<and> promises s ! p = None
      then s\<lparr>promises := (promises s)[p := Some v]\<rparr>
      else s)"

definition timeoutMs :: "StockfishOptions \<Rightarrow> int" where
  "timeoutMs options = (if truthy (movetime options) then the (movetime options) else 30000)"

definition clearTimeout :: "nat \<Rightarrow> 'b state \<Rightarrow> 'b state" where
  "clearTimeout p s =
     s\<lparr>timers := filter (\<lambda>t. case snd t of Timeout q ms \<Rightarrow> q \<noteq> p | _ \<Rightarrow> True) (timers s)\<rparr>"

definition timeout_callback :: "nat \<Rightarrow> int \<Rightarrow> 'b state \<Rightarrow> 'b state" where
  \<comment> \<open>the callback given to \<open>setTimeout\<close> by \<open>evaluatePosition\<close>\<close>
  "timeout_callback p ms s =
     (let s1 = terminate s;
          s2 = s1\<lparr>console := console s1 @
                 [Warn (''Stockfish evaluation timed out after '' @ show_int ms
                        @ ''ms, returning empty analysis.'')]\<rparr>
      in settle p (Resolved []) s2)"

definition messageHandler :: "nat \<Rightarrow> string \<Rightarrow> 'b state \<Rightarrow> 'b state" where
  "messageHandler p data s =
     (if startsWith ''bestmove'' data
      then (let s1 = clearTimeout p s;
                s2 = (case stockfish s1 of
                        Some w \<Rightarrow> removeEventListener w (MessageHandler p) s1
                      | None \<Rightarrow> s1);
                finalLines = filter_Boolean (analysisLines s2);
                s3 = s2\<lparr>lines := finalLines\<rparr>;
                s4 = terminate s3
            in settle p (Resolved finalLines) s4)
      else s)"

definition goCommand :: "StockfishOptions \<Rightarrow> string" where
  "goCommand options =
     ''go'' @
     (if depth options \<noteq> None then '' depth '' @ show_int (the (depth options))
      else if time options \<noteq> None
      then '' wtime '' @ show_int (the (time options)) @ '' btime '' @ show_int (the (time options))
      else if movetime options \<noteq> None then '' movetime '' @ show_int (the (movetime options))
      else if nodes options \<noteq> None then '' nodes '' @ show_int (the (nodes options))
      else '' depth 15'')"

definition evaluate_checkUciOk :: "'b rules \<Rightarrow> StockfishOptions \<Rightarrow> 'b state \<Rightarrow> 'b state" where
  \<comment> \<open>the closure \<open>checkUciOk\<close> of \<open>evaluatePosition\<close>\<close>
  "evaluate_checkUciOk R options s =
     (if isuciok s
      then sendCommand (goCommand options)
             (sendCommand (''position fen '' @ fen R (heap s ! self)) s)
      else setTimeout (EvaluateCheckUciOk options) 50 s)"

definition evaluatePosition :: "'b rules \<Rightarrow> StockfishOptions \<Rightarrow> 'b state \<Rightarrow> nat \<times> 'b state" where
  \<comment> \<open>returns the new promise and the state after the promise's executor has run; an
      exception in the executor rejects the promise\<close>
  "evaluatePosition R options s =
     (let p = length (promises s);
          s0 = s\<lparr>promises := promises s @ [None]\<rparr>
      in if mode s0 \<noteq> Idle then (p, settle p (Rejected BusyError) s0)
         else case initializeWorker options (s0\<lparr>mode := Evaluate\<rparr>) of
                Inl e \<Rightarrow> (p, settle p (Rejected e) (s0\<lparr>mode := Evaluate\<rparr>))
              | Inr s1 \<Rightarrow>
                  (let s2 = s1\<lparr>analysisLines := []\<rparr>;
                       s3 = setTimeout (Timeout p (timeoutMs options)) (timeoutMs options) s2;
                       s4 = (case stockfish s3 of
                               Some w \<Rightarrow> addEventListener w (MessageHandler p) s3
                             | None \<Rightarrow> s3)
                   in (p, evaluate_checkUciOk R options s4)))"

subsection \<open>Events from the environment\<close>

definition run_listener :: "'b rules \<Rightarrow> string \<Rightarrow> wlistener \<Rightarrow> 'b state \<Rightarrow> 'b state" where
  "run_listener R data l s =
     (case l of
        HandleStockfishMessage options \<Rightarrow> handleStockfishMessage R data options s
      | MessageHandler p \<Rightarrow> messageHandler p data s)"

definition worker_message :: "'b rules \<Rightarrow> nat \<Rightarrow> string \<Rightarrow> 'b state \<Rightarrow> 'b state" where
  \<comment> \<open>worker \<open>w\<close> posts \<open>data\<close>: the listeners registered when the event is dispatched run in
      order\<close>
  "worker_message R w data s =
     (if w < length (workers s) \<and> alive (workers s ! w)
      then foldl (\<lambda>s' l. run_listener R data l s') s (wlisteners (workers s ! w))
      else s)"

definition worker_error :: "nat \<Rightarrow> 'b state \<Rightarrow> 'b state" where
  \<comment> \<open>the \<open>onerror\<close> handler installed by \<open>_initializeWorker\<close>\<close>
  "worker_error w s =
     (if w < length (workers s) \<and> alive (workers s ! w)
      then terminate (s\<lparr>console := console s @ [Error ''Stockfish worker error:'']\<rparr>)
      else s)"

text \<open>
  Calls and events take no time of their own; \<open>tick\<close> lets time pass between them. A
  pending timer expires when its delay has elapsed and no other pending timer comes before
  it: timers run in the order of their due times and, among equal due times, in the order
  of their registration.
\<close>

definition tick :: "int \<Rightarrow> 'b state \<Rightarrow> 'b state" where
  \<comment> \<open>\<open>d\<close> milliseconds pass\<close>
  "tick d s = s\<lparr>now := now s + max 0 d\<rparr>"

definition expires :: "nat \<Rightarrow> 'b state \<Rightarrow> bool" where
  "expires i s =
     (i < length (timers s)
      \<and> fst (timers s ! i) \<le> now s
      \<and> list_all (\<lambda>t. fst (timers s ! i) < fst t) (take i (timers s))
      \<and> list_all (\<lambda>t. fst (timers s ! i) \<le> fst t) (drop (Suc i) (timers s)))"

definition run_timer :: "'b rules \<Rightarrow> callback \<Rightarrow> 'b state \<Rightarrow> 'b state" where
  "run_timer R t s =
     (case t of
        Timeout p ms \<Rightarrow> timeout_callback p ms s
      | EvaluateCheckUciOk options \<Rightarrow> evaluate_checkUciOk R options s
      | StreamCheckUciOk \<Rightarrow> stream_checkUciOk R s)"

definition fire :: "'b rules \<Rightarrow> nat \<Rightarrow> 'b state \<Rightarrow> 'b state" where
  \<comment> \<open>the callback of the pending timer at position \<open>i\<close> runs, if the timer expires now\<close>
  "fire R i s =
     (if expires i s
      then run_timer R (snd (timers s ! i))
             (s\<lparr>timers := take i (timers s) @ drop (Suc i) (timers s)\<rparr>)
      else s)"




section \<open>A fragment of the rules engine for concrete runs\<close>

text \<open>
  The behaviour of chess.js on the opening 1. e4 e5 2. Nf3 and on 1. d4 from the standard
  start position: boards are numbered, every other move is rejected, and only the position
  strings of these boards load.
\<close>

definition start_fen :: string where
  "start_fen = ''rnbqkbnr/pppppppp/8/8/8/8/PPPPPPPP/RNBQKBNR w KQkq - 0 1''"

definition opening_fen :: "nat \<Rightarrow> string" where
  "opening_fen b =
     (if b = 0 then start_fen
      else if b = 1 then ''rnbqkbnr/pppppppp/8/8/4P3/8/PPPP1PPP/RNBQKBNR b KQkq - 0 1''
      else if b = 2 then ''rnbqkbnr/pppp1ppp/8/4p3/4P3/8/PPPP1PPP/RNBQKBNR w KQkq - 0 2''
      else if b = 3 then ''rnbqkbnr/pppp1ppp/8/4p3/4P3/5N2/PPPP1PPP/RNBQKB1R b KQkq - 1 2''
      else ''rnbqkbnr/pppppppp/8/8/3P4/8/PPP1PPPP/RNBQKBNR b KQkq - 0 1'')"

definition opening_move :: "nat \<Rightarrow> string \<Rightarrow> (string \<times> nat) option" where
  "opening_move b mv =
     (if b = 0 \<and> mv = ''e2e4'' then Some (''e4'', 1)
      else if b = 0 \<and> mv = ''d2d4'' then Some (''d4'', 4)
      else if b = 1 \<and> mv = ''e7e5'' then Some (''e5'', 2)
      else if b = 2 \<and> mv = ''g1f3'' then Some (''Nf3'', 3)
      else None)"

definition opening_load :: "string \<Rightarrow> nat option" where
  "opening_load position = first_some (\<lambda>b. if opening_fen b = position then Some b else None) [0, 1, 2, 3, 4]"

definition opening_rules :: "nat rules" where
  "opening_rules = \<lparr>load = opening_load, move = opening_move, fen = opening_fen\<rparr>"


definition worker_messages :: "'b rules \<Rightarrow> nat \<Rightarrow> string list \<Rightarrow> 'b state \<Rightarrow> 'b state" where
  \<comment> \<open>worker \<open>w\<close> posts the lines \<open>msgs\<close> one after the other\<close>
  "worker_messages R w msgs s = foldl (\<lambda>s' data. worker_message R w data s') s msgs"

section \<open>Notions of the specification\<close>

text \<open>
  Following the specification's words: the rules engine accepts a list of moves in order from
  a board when it accepts each move on the board its predecessors lead to; \<open>play\<close> gives
  the SAN translations and the final board of an accepted list.
\<close>

fun play :: "'b rules \<Rightarrow> 'b \<Rightarrow> string list \<Rightarrow> (string list \<times> 'b) option" where
  "play R b [] = Some ([], b)"
| "play R b (mv # rest) =
     (case move R b mv of
        None \<Rightarrow> None
      | Some (san, b') \<Rightarrow>
          (case play R b' rest of
             None \<Rightarrow> None
           | Some (sans, b'') \<Rightarrow> Some (san # sans, b'')))"


text \<open>
  A rank-update line is an engine output line other than the ready and completion signals
  that matches the ranked-info pattern; its rank is the number captured by the first group.
  Ranks are 1-based; a JavaScript array has fewer than \<open>2^32\<close> slots.
\<close>

definition rank_of :: "string \<Rightarrow> int" where
  "rank_of message =
     (case multipvMatch message of Some (g1, g2, g3, g4) \<Rightarrow> parseInt g1 | None \<Rightarrow> 0)"

definition rank_update_line :: "string \<Rightarrow> bool" where
  "rank_update_line message =
     (message \<noteq> ''uciok'' \<and> \<not> startsWith ''bestmove'' message
      \<and> multipvMatch message \<noteq> None
      \<and> 0 < rank_of message \<and> rank_of message < 4294967296)"

text \<open>
  The line stored for rank \<open>r\<close> is the content of slot \<open>r - 1\<close> of the array, and a
  rank-keyed collection is listed in ascending order of rank.
\<close>

definition stored :: "'a option list \<Rightarrow> nat \<Rightarrow> 'a option" where
  "stored arr r = (if 1 \<le> r \<and> r \<le> length arr then arr ! (r - 1) else None)"

definition ascending :: "(nat \<Rightarrow> 'a option) \<Rightarrow> 'a list" where
  "ascending M = map (\<lambda>r. the (M r)) (sorted_list_of_set (dom M))"

section \<open>Concrete sessions\<close>

definition fresh_engine :: "nat state" where
  \<comment> \<open>a new controller on the standard start position, in a browser\<close>
  "fresh_engine = new_ChessEngine 0 True"


definition multipv_options :: StockfishOptions where
  \<comment> \<open>\<open>{ multiPV: 2 }\<close>\<close>
  "multipv_options = no_options\<lparr>multiPV := Some 2\<rparr>"

definition streaming_session :: "nat state" where
  \<comment> \<open>a subscriber, then \<open>startAnalysis()\<close>\<close>
  "streaming_session = snd (startAnalysis opening_rules no_options (on 7 fresh_engine))"

definition streaming_ready :: "nat state" where
  \<comment> \<open>the streaming session after the ready signal and the poll 50 ms after the start\<close>
  "streaming_ready =
     fire opening_rules 0 (tick 50 (worker_message opening_rules 0 ''uciok'' streaming_session))"

definition black_to_move_session :: "nat state" where
  \<comment> \<open>a streaming session of a controller whose own position is the one after 1. e4\<close>
  "black_to_move_session =
     snd (startAnalysis opening_rules no_options (on 7 (new_ChessEngine 1 True)))"

definition evaluating_session :: "nat state" where
  \<comment> \<open>a subscriber, \<open>evaluatePosition({ multiPV: 2 })\<close>, the ready signal and the poll 50 ms
      after the call\<close>
  "evaluating_session =
     fire opening_rules 1
       (tick 50
         (worker_message opening_rules 0 ''uciok''
           (snd (evaluatePosition opening_rules multipv_options (on 7 fresh_engine)))))"

definition out_of_order_lines :: "string list" where
  "out_of_order_lines =
     [''info depth 9 multipv 2 score cp -5 pv d2d4'',
      ''info depth 9 multipv 1 score cp 13 pv e2e4 e7e5'']"

definition partial_session :: "nat state" where
  \<comment> \<open>the evaluating session after one ranked line\<close>
  "partial_session =
     worker_message opening_rules 0
       ''info depth 15 multipv 1 score cp 13 pv e2e4 e7e5 g1f3'' evaluating_session"

definition out_of_order_session :: "nat state" where
  \<comment> \<open>the evaluating session after rank 2 and then rank 1 have reported\<close>
  "out_of_order_session = worker_messages opening_rules 0 out_of_order_lines evaluating_session"



definition empty_board_fen :: string where
  \<comment> \<open>the position string of a board without pieces, which the rules engine refuses to
      load\<close>
  "empty_board_fen = ''8/8/8/8/8/8/8/8 w - - 0 1''"

definition mate_line :: string where
  "mate_line = ''info depth 9 multipv 1 score mate -1 pv e7e5''"

definition empty_pv_line :: string where
  \<comment> \<open>a ranked line whose \<open>pv\<close> token is followed by two spaces and nothing else\<close>
  "empty_pv_line = ''info depth 1 multipv 1 score cp 13 pv  ''"

section \<open>Properties of notation translation\<close>

text \<open>
  The loop changes only the board it was given and the console, never the length of the
  heap.
\<close>

lemma for_moves_frame:
  "for_moves R a ms acc s = (r, s') \<Longrightarrow>
     s' = s\<lparr>heap := heap s', console := console s'\<rparr>
     \<and> length (heap s') = length (heap s)
     \<and> (\<forall>i. i \<noteq> a \<longrightarrow> heap s' ! i = heap s ! i)"
proof (induction ms arbitrary: acc s)
  case Nil
  then show ?case by auto
next
  case (Cons mv rest)
  show ?case
  proof (cases "move R (heap s ! a) mv")
    case None
    with Cons.prems show ?thesis by auto
  next
    case (Some sb)
    obtain san b' where sb: "sb = (san, b')" by (cases sb)
    from Cons.prems Some sb
    have "for_moves R a rest (acc @ [san]) (s\<lparr>heap := (heap s)[a := b']\<rparr>) = (r, s')"
      by simp
    from Cons.IH[OF this] show ?thesis by auto
  qed
qed

lemma for_moves_play:
  "a < length (heap s) \<Longrightarrow>
   \<exists>k sans b'. k \<le> length ms \<and> play R (heap s ! a) (take k ms) = Some (sans, b')
      \<and> fst (for_moves R a ms acc s) = acc @ sans
      \<and> (k < length ms \<longrightarrow> move R b' (ms ! k) = None)"
proof (induction ms arbitrary: acc s)
  case Nil
  then show ?case by simp
next
  case (Cons mv rest)
  show ?case
  proof (cases "move R (heap s ! a) mv")
    case None
    then have "0 \<le> length (mv # rest)
      \<and> play R (heap s ! a) (take 0 (mv # rest)) = Some ([], heap s ! a)
      \<and> fst (for_moves R a (mv # rest) acc s) = acc @ []
      \<and> (0 < length (mv # rest) \<longrightarrow> move R (heap s ! a) ((mv # rest) ! 0) = None)"
      by simp
    then show ?thesis by blast
  next
    case (Some sb)
    obtain san b1 where sb: "sb = (san, b1)" by (cases sb)
    let ?s1 = "s\<lparr>heap := (heap s)[a := b1]\<rparr>"
    from Cons.prems have a1: "a < length (heap ?s1)" by simp
    from Cons.IH[OF a1, of "acc @ [san]"]
    obtain k sans b' where k: "k \<le> length rest"
      and p: "play R (heap ?s1 ! a) (take k rest) = Some (sans, b')"
      and f: "fst (for_moves R a rest (acc @ [san]) ?s1) = (acc @ [san]) @ sans"
      and m: "k < length rest \<longrightarrow> move R b' (rest ! k) = None"
      by blast
    from Cons.prems have h: "heap ?s1 ! a = b1" by simp
    have "Suc k \<le> length (mv # rest)
      \<and> play R (heap s ! a) (take (Suc k) (mv # rest)) = Some (san # sans, b')
      \<and> fst (for_moves R a (mv # rest) acc s) = acc @ (san # sans)
      \<and> (Suc k < length (mv # rest) \<longrightarrow> move R b' ((mv # rest) ! Suc k) = None)"
      using k p f m h Some sb by simp
    then show ?thesis by blast
  qed
qed

lemma convertMovesToSAN_frame:
  assumes "convertMovesToSAN R moves position s = (r, s')"
  shows "s' = s\<lparr>heap := heap s', console := console s'\<rparr>
     \<and> length (heap s) \<le> length (heap s')
     \<and> (\<forall>i < length (heap s). heap s' ! i = heap s ! i)"
proof (cases "load R position")
  case None
  with assms show ?thesis by (auto simp: convertMovesToSAN_def)
next
  case (Some b)
  let ?s0 = "s\<lparr>heap := heap s @ [b]\<rparr>"
  obtain cm s1 where fm: "for_moves R (length (heap s)) moves [] ?s0 = (cm, s1)"
    by (cases "for_moves R (length (heap s)) moves [] ?s0")
  from assms Some fm have s': "s' = s1" by (simp add: convertMovesToSAN_def Let_def)
  from for_moves_frame[OF fm] s' show ?thesis
    by (auto simp: nth_append)
qed

lemma convertMovesToSAN_loaded:
  "load R position = Some b \<Longrightarrow>
     \<exists>sanLine s'. convertMovesToSAN R moves position s = (Inr sanLine, s')"
  by (simp add: convertMovesToSAN_def Let_def split: prod.splits)

lemma play_append:
  "play R b (xs @ ys) =
     (case play R b xs of
        None \<Rightarrow> None
      | Some (sans, b') \<Rightarrow>
          (case play R b' ys of
             None \<Rightarrow> None
           | Some (sans', b'') \<Rightarrow> Some (sans @ sans', b'')))"
  by (induction xs arbitrary: b) (auto split: option.splits)

text \<open>No prefix that goes past a rejected move is accepted.\<close>

lemma play_longer_rejected:
  assumes "play R b (take k moves) = Some (sans, b')" "k < length moves"
    and "move R b' (moves ! k) = None" "k < j"
  shows "play R b (take j moves) = None"
proof -
  have "take j moves = take k moves @ take (j - k) (drop k moves)"
    using assms(4) by (metis le_add_diff_inverse less_imp_le take_add)
  also have "drop k moves = moves ! k # drop (Suc k) moves"
    using assms(2) by (simp add: Cons_nth_drop_Suc)
  also have "take (j - k) (moves ! k # drop (Suc k) moves)
      = moves ! k # take (j - k - 1) (drop (Suc k) moves)"
    using assms(4) by (cases "j - k") simp_all
  finally show ?thesis
    using assms(1,3) by (simp add: play_append)
qed

text \<open>
  Claim C5, as the code has it. The board is made by \<open>new Chess(position)\<close> before the loop
  and outside its \<open>try\<close>: for a position string that the rules engine refuses,
  \<open>convertMovesToSAN\<close> throws and leaves the state as it was. From a position that the
  rules engine loads, it returns (it does not throw) the SAN translations of a prefix of the
  move list that the rules engine accepts in order; the prefix is the whole list or ends just
  before a move that the rules engine rejects, and no longer prefix is accepted: it is the
  longest accepted prefix.
\<close>

theorem convertMovesToSAN_longest_accepted_prefix:
  "(case load R position of
      None \<Rightarrow> convertMovesToSAN R moves position s = (Inl InvalidPosition, s)
    | Some b \<Rightarrow>
        (\<exists>k sans b'. k \<le> length moves
           \<and> play R b (take k moves) = Some (sans, b')
           \<and> (k < length moves \<longrightarrow> move R b' (moves ! k) = None)
           \<and> (\<forall>j. k < j \<and> j \<le> length moves \<longrightarrow> play R b (take j moves) = None)
           \<and> fst (convertMovesToSAN R moves position s) = Inr sans))"
proof (cases "load R position")
  case None
  then show ?thesis by (simp add: convertMovesToSAN_def)
next
  case (Some b)
  let ?s0 = "s\<lparr>heap := heap s @ [b]\<rparr>"
  have a: "length (heap s) < length (heap ?s0)" by simp
  have hb: "heap ?s0 ! length (heap s) = b" by simp
  from for_moves_play[OF a, of moves R "[]"] hb
  obtain k sans b' where k: "k \<le> length moves"
    and p: "play R b (take k moves) = Some (sans, b')"
    and f: "fst (for_moves R (length (heap s)) moves [] ?s0) = sans"
    and m: "k < length moves \<longrightarrow> move R b' (moves ! k) = None"
    by auto
  have longest: "\<forall>j. k < j \<and> j \<le> length moves \<longrightarrow> play R b (take j moves) = None"
  proof (intro allI impI)
    fix j assume j: "k < j \<and> j \<le> length moves"
    then have kl: "k < length moves" by simp
    with m have "move R b' (moves ! k) = None" by simp
    from play_longer_rejected[OF p kl this] j show "play R b (take j moves) = None" by simp
  qed
  have "fst (convertMovesToSAN R moves position s)
      = Inr (fst (for_moves R (length (heap s)) moves [] ?s0))"
    using Some by (simp add: convertMovesToSAN_def Let_def split: prod.splits)
  with k p f m longest
  have "\<exists>k sans b'. k \<le> length moves
           \<and> play R b (take k moves) = Some (sans, b')
           \<and> (k < length moves \<longrightarrow> move R b' (moves ! k) = None)
           \<and> (\<forall>j. k < j \<and> j \<le> length moves \<longrightarrow> play R b (take j moves) = None)
           \<and> fst (convertMovesToSAN R moves position s) = Inr sans"
    by blast
  with Some show ?thesis by simp
qed

text \<open>
  The example of the specification: \<open>[e2e4, bogus, g1f3]\<close> from the standard start
  position gives \<open>[e4]\<close>.
\<close>

theorem convertMovesToSAN_longest_accepted_prefix_witness:
  "load opening_rules start_fen = Some 0
   \<and> fst (convertMovesToSAN opening_rules [''e2e4'', ''bogus'', ''g1f3''] start_fen fresh_engine)
       = Inr [''e4'']"
proof -
  have h: "load opening_rules start_fen = Some 0" by code_simp
  from convertMovesToSAN_longest_accepted_prefix
         [where R = opening_rules and position = start_fen
            and moves = "[''e2e4'', ''bogus'', ''g1f3'']" and s = fresh_engine]
  have "\<exists>k sans b'. k \<le> length [''e2e4'', ''bogus'', ''g1f3'']
      \<and> play opening_rules 0 (take k [''e2e4'', ''bogus'', ''g1f3'']) = Some (sans, b')
      \<and> (k < length [''e2e4'', ''bogus'', ''g1f3''] \<longrightarrow>
              move opening_rules b' ([''e2e4'', ''bogus'', ''g1f3''] ! k) = None)
      \<and> (\<forall>j. k < j \<and> j \<le> length [''e2e4'', ''bogus'', ''g1f3''] \<longrightarrow>
              play opening_rules 0 (take j [''e2e4'', ''bogus'', ''g1f3'']) = None)
      \<and> fst (convertMovesToSAN opening_rules [''e2e4'', ''bogus'', ''g1f3'']
               start_fen fresh_engine) = Inr sans"
    unfolding h by simp
  then obtain k sans b' where k: "k \<le> length [''e2e4'', ''bogus'', ''g1f3'']"
    and p: "play opening_rules 0 (take k [''e2e4'', ''bogus'', ''g1f3'']) = Some (sans, b')"
    and m: "k < length [''e2e4'', ''bogus'', ''g1f3''] \<longrightarrow>
              move opening_rules b' ([''e2e4'', ''bogus'', ''g1f3''] ! k) = None"
    and r: "fst (convertMovesToSAN opening_rules [''e2e4'', ''bogus'', ''g1f3'']
                   start_fen fresh_engine) = Inr sans"
    by blast
  have p0: "play opening_rules 0 (take 0 [''e2e4'', ''bogus'', ''g1f3'']) = Some ([], 0)"
    by code_simp
  have m0: "move opening_rules 0 ([''e2e4'', ''bogus'', ''g1f3''] ! 0) \<noteq> None"
    by code_simp
  have p1: "play opening_rules 0 (take 1 [''e2e4'', ''bogus'', ''g1f3'']) = Some ([''e4''], 1)"
    by code_simp
  have p2: "play opening_rules 0 (take 2 [''e2e4'', ''bogus'', ''g1f3'']) = None"
    by code_simp
  have p3: "play opening_rules 0 (take 3 [''e2e4'', ''bogus'', ''g1f3'']) = None"
    by code_simp
  from k have "k = 0 \<or> k = 1 \<or> k = 2 \<or> k = 3" by auto
  then have "sans = [''e4'']"
  proof (elim disjE)
    assume "k = 0"
    with p p0 m m0 show ?thesis by simp
  next
    assume "k = 1"
    with p p1 show ?thesis by simp
  next
    assume "k = 2"
    with p p2 show ?thesis by simp
  next
    assume "k = 3"
    with p p3 show ?thesis by simp
  qed
  with h r show ?thesis by simp
qed

text \<open>
  Claim C5 as stated fails for a starting position that the rules engine refuses: the
  position string of the empty board, which is what the controller's own \<open>fen()\<close> gives
  after \<open>clear()\<close>, has no kings, and \<open>new Chess\<close> throws on it. The call then throws
  instead of returning the empty prefix.
\<close>

theorem convertMovesToSAN_throws_on_refused_position:
  "load opening_rules empty_board_fen = None
   \<and> fst (convertMovesToSAN opening_rules [''e2e4'', ''bogus'', ''g1f3''] empty_board_fen
            fresh_engine) = Inl InvalidPosition
   \<and> fst (convertMovesToSAN opening_rules [] empty_board_fen fresh_engine) \<noteq> Inr []"
proof -
  have 1: "load opening_rules empty_board_fen = None" by code_simp
  have 2: "fst (convertMovesToSAN opening_rules [''e2e4'', ''bogus'', ''g1f3''] empty_board_fen
            fresh_engine) = Inl InvalidPosition"
    by code_simp
  have 3: "fst (convertMovesToSAN opening_rules [] empty_board_fen fresh_engine) = Inl InvalidPosition"
    by code_simp
  have 4: "fst (convertMovesToSAN opening_rules [] empty_board_fen fresh_engine) \<noteq> Inr []"
    unfolding 3 by simp
  from 1 2 4 show ?thesis by (intro conjI)
qed

section \<open>Properties of commands and teardown\<close>

lemma cond_send_frame:
  assumes "\<exists>cfg. t = s\<lparr>posted := posted s @ cfg\<rparr>"
  shows "\<exists>cfg. (if c then sendCommand cmd t else t) = s\<lparr>posted := posted s @ cfg\<rparr>"
proof -
  from assms obtain cfg where t: "t = s\<lparr>posted := posted s @ cfg\<rparr>" by blast
  show ?thesis
  proof (cases "c \<and> stockfish s \<noteq> None")
    case True
    then obtain w where "stockfish s = Some w" by auto
    with True t
    have "(if c then sendCommand cmd t else t) = s\<lparr>posted := posted s @ (cfg @ [(w, cmd)])\<rparr>"
      by (simp add: sendCommand_def)
    then show ?thesis by blast
  next
    case False
    with t have "(if c then sendCommand cmd t else t) = s\<lparr>posted := posted s @ cfg\<rparr>"
      by (auto simp: sendCommand_def)
    then show ?thesis by blast
  qed
qed

text \<open>\<open>_setOptions\<close> only posts commands.\<close>

lemma setOptions_frame: "\<exists>cfg. setOptions options s = s\<lparr>posted := posted s @ cfg\<rparr>"
proof -
  have 0: "\<exists>cfg. s = s\<lparr>posted := posted s @ cfg\<rparr>"
  proof
    show "s = s\<lparr>posted := posted s @ []\<rparr>" by simp
  qed
  show ?thesis
    unfolding setOptions_def Let_def
    by (intro cond_send_frame 0)
qed

lemma terminate_frame:
  "promises (terminate s) = promises s"
  "timers (terminate s) = timers s"
  "heap (terminate s) = heap s"
  "analysisLines (terminate s) = analysisLines s"
  "lines (terminate s) = lines s"
  "console (terminate s) = console s"
  "delivered (terminate s) = delivered s"
  "listeners (terminate s) = listeners s"
  by (simp_all add: terminate_def sendCommand_def Let_def split: option.splits)

lemma terminate_result:
  "stockfish (terminate s) = None"
  "isuciok (terminate s) = False"
  "mode (terminate s) = Idle"
  by (simp_all add: terminate_def sendCommand_def Let_def split: option.splits)

lemma terminate_posted:
  "posted (terminate s)
     = posted s @ (case stockfish s of Some w \<Rightarrow> [(w, ''quit'')] | None \<Rightarrow> [])"
  by (simp add: terminate_def sendCommand_def Let_def split: option.splits)

lemma terminate_url:
  "(case stockfishWorkerUrl s of
         None \<Rightarrow> stockfishWorkerUrl (terminate s) = None \<and> revoked (terminate s) = revoked s
       | Some u \<Rightarrow>
           if u \<noteq> [] \<and> startsWith ''blob:'' u
           then stockfishWorkerUrl (terminate s) = None \<and> revoked (terminate s) = revoked s @ [u]
           else stockfishWorkerUrl (terminate s) = Some u \<and> revoked (terminate s) = revoked s)"
  by (auto simp add: terminate_def sendCommand_def Let_def truthy_str_def split: option.splits)

lemma terminate_idle:
  assumes "stockfish s = None"
    and "\<not> (truthy_str (stockfishWorkerUrl s) \<and> startsWith ''blob:'' (the (stockfishWorkerUrl s)))"
    and "isuciok s = False" and "mode s = Idle"
  shows "terminate s = s"
  using assms by (auto simp add: terminate_def)

lemma terminate_url_after:
  "\<not> (truthy_str (stockfishWorkerUrl (terminate s))
       \<and> startsWith ''blob:'' (the (stockfishWorkerUrl (terminate s))))"
  by (auto simp add: terminate_def sendCommand_def Let_def truthy_str_def split: option.splits)

lemma terminate_idempotent: "terminate (terminate s) = terminate s"
  by (rule terminate_idle) (simp_all add: terminate_result terminate_url_after[simplified])

text \<open>
  Claim C9. From every state, \<open>terminate\<close> posts \<open>quit\<close> exactly when a worker handle
  exists, and leaves the worker handle null, a \<open>blob:\<close> load-URL revoked and null (any other
  load-URL is kept), the ready flag false and the mode idle; a second \<open>terminate\<close> changes
  nothing at all: no command posted, nothing revoked, the same state.
\<close>

theorem terminate_teardown_idempotent:
  "posted (terminate s)
     = posted s @ (case stockfish s of Some w \<Rightarrow> [(w, ''quit'')] | None \<Rightarrow> [])
   \<and> stockfish (terminate s) = None
   \<and> (case stockfishWorkerUrl s of
         None \<Rightarrow> stockfishWorkerUrl (terminate s) = None \<and> revoked (terminate s) = revoked s
       | Some u \<Rightarrow>
           if u \<noteq> [] \<and> startsWith ''blob:'' u
           then stockfishWorkerUrl (terminate s) = None \<and> revoked (terminate s) = revoked s @ [u]
           else stockfishWorkerUrl (terminate s) = Some u \<and> revoked (terminate s) = revoked s)
   \<and> isuciok (terminate s) = False
   \<and> mode (terminate s) = Idle
   \<and> terminate (terminate s) = terminate s"
  using terminate_posted[of s] terminate_result[of s] terminate_url[of s]
    terminate_idempotent[of s]
  by (intro conjI)

text \<open>
  In the evaluating session that has received one ranked line, \<open>terminate\<close> posts \<open>quit\<close>
  after the four commands of the session, and a second \<open>terminate\<close> is a no-op.
\<close>

theorem terminate_teardown_idempotent_witness:
  "posted (terminate partial_session)
     = [(0, ''uci''), (0, ''setoption name MultiPV value 2''),
        (0, ''position fen rnbqkbnr/pppppppp/8/8/8/8/PPPPPPPP/RNBQKBNR w KQkq - 0 1''),
        (0, ''go depth 15''), (0, ''quit'')]
   \<and> stockfish (terminate partial_session) = None
   \<and> mode (terminate partial_session) = Idle
   \<and> terminate (terminate partial_session) = terminate partial_session"
proof -
  note t = terminate_teardown_idempotent[of partial_session]
  have "posted (terminate partial_session)
     = posted partial_session
        @ (case stockfish partial_session of Some w \<Rightarrow> [(w, ''quit'')] | None \<Rightarrow> [])"
    by (rule t[THEN conjunct1])
  also have "\<dots> = [(0, ''uci''), (0, ''setoption name MultiPV value 2''),
        (0, ''position fen rnbqkbnr/pppppppp/8/8/8/8/PPPPPPPP/RNBQKBNR w KQkq - 0 1''),
        (0, ''go depth 15''), (0, ''quit'')]"
    by code_simp
  finally show ?thesis
    using t[THEN conjunct2, THEN conjunct1]
      t[THEN conjunct2, THEN conjunct2, THEN conjunct2, THEN conjunct2, THEN conjunct1]
      t[THEN conjunct2, THEN conjunct2, THEN conjunct2, THEN conjunct2, THEN conjunct2]
    by (intro conjI)
qed

text \<open>
  Claim C8, at the options \<open>{ skillLevel: 0, contempt: 0 }\<close>: both parameters are present,
  yet on the ready signal no \<open>setoption\<close> command is posted, because \<open>_setOptions\<close>
  tests the truthiness of each value. With \<open>{ multiPV: 2 }\<close> the command is posted.
\<close>

theorem setOptions_skips_zero_values:
  "posted (worker_message opening_rules 0 ''uciok''
      (snd (evaluatePosition opening_rules
              (no_options\<lparr>skillLevel := Some 0, contempt := Some 0\<rparr>) fresh_engine)))
     = [(0, ''uci'')]
   \<and> posted (worker_message opening_rules 0 ''uciok''
      (snd (evaluatePosition opening_rules multipv_options fresh_engine)))
     = [(0, ''uci''), (0, ''setoption name MultiPV value 2'')]"
proof -
  have 1: "posted (worker_message opening_rules 0 ''uciok''
      (snd (evaluatePosition opening_rules
              (no_options\<lparr>skillLevel := Some 0, contempt := Some 0\<rparr>) fresh_engine)))
     = [(0, ''uci'')]"
    by code_simp
  have 2: "posted (worker_message opening_rules 0 ''uciok''
      (snd (evaluatePosition opening_rules multipv_options fresh_engine)))
     = [(0, ''uci''), (0, ''setoption name MultiPV value 2'')]"
    by code_simp
  from 1 2 show ?thesis by (intro conjI)
qed

section \<open>Properties of one-shot evaluation\<close>





lemma messageHandler_other: "\<not> startsWith ''bestmove'' data \<Longrightarrow> messageHandler p data s = s"
  by (simp add: messageHandler_def)

lemma uciok_not_bestmove: "\<not> startsWith ''bestmove'' ''uciok''"
  by (simp add: startsWith_def)

lemma handle_uciok:
  "handleStockfishMessage R ''uciok'' options s = setOptions options (s\<lparr>isuciok := True\<rparr>)"
  by (simp add: handleStockfishMessage_def)


text \<open>
  Claim C6. Whenever the mode is not idle, \<open>evaluatePosition\<close> only rejects its new
  promise with the busy error: no worker is constructed and no command is posted, the rest
  of the state is as before. \<open>startAnalysis\<close> in the same state returns normally and only
  logs the warning.
\<close>

theorem busy_evaluate_rejects_start_warns:
  "mode s \<noteq> Idle \<Longrightarrow>
     evaluatePosition R options s =
       (length (promises s), s\<lparr>promises := promises s @ [Some (Rejected BusyError)]\<rparr>)
     \<and> workers (snd (evaluatePosition R options s)) = workers s
     \<and> posted (snd (evaluatePosition R options s)) = posted s
     \<and> startAnalysis R options' s =
         (Returned,
          s\<lparr>console := console s @
                [Warn ''Engine is busy. Please stop the current analysis first.'']\<rparr>)"
  by (simp add: evaluatePosition_def startAnalysis_def settle_def Let_def nth_append)

text \<open>
  The scenario of the test suite: after \<open>startAnalysis()\<close> the worker constructor has run
  once, and a following \<open>evaluatePosition()\<close> rejects and leaves it at once.
\<close>

theorem busy_evaluate_rejects_start_warns_witness:
  "mode streaming_session \<noteq> Idle
   \<and> length (workers streaming_session) = 1
   \<and> length (workers (snd (evaluatePosition opening_rules no_options streaming_session))) = 1
   \<and> posted (snd (evaluatePosition opening_rules no_options streaming_session)) = [(0, ''uci'')]
   \<and> promises (snd (evaluatePosition opening_rules no_options streaming_session))
       = [Some (Rejected BusyError)]
   \<and> fst (startAnalysis opening_rules no_options streaming_session) = Returned"
proof -
  have h: "mode streaming_session \<noteq> Idle" by code_simp
  note t = busy_evaluate_rejects_start_warns[OF h, of opening_rules no_options no_options]
  have w: "length (workers streaming_session) = 1" by code_simp
  have p: "posted streaming_session = [(0, ''uci'')]" by code_simp
  have q: "promises streaming_session = []" by code_simp
  have 1: "length (workers (snd (evaluatePosition opening_rules no_options streaming_session))) = 1"
    using t[THEN conjunct2, THEN conjunct1] w by simp
  have 2: "posted (snd (evaluatePosition opening_rules no_options streaming_session))
      = [(0, ''uci'')]"
    using t[THEN conjunct2, THEN conjunct2, THEN conjunct1] p by simp
  have 3: "promises (snd (evaluatePosition opening_rules no_options streaming_session))
       = [Some (Rejected BusyError)]"
    using t[THEN conjunct1] q by simp
  have 4: "fst (startAnalysis opening_rules no_options streaming_session) = Returned"
    using t[THEN conjunct2, THEN conjunct2, THEN conjunct2] by simp
  from h w 1 2 3 4 show ?thesis by (intro conjI)
qed









lemma settle_pending:
  "p < length (promises s) \<Longrightarrow> promises s ! p = None \<Longrightarrow>
     settle p v s = s\<lparr>promises := (promises s)[p := Some v]\<rparr>"
  by (simp add: settle_def)

lemma timeout_callback_result:
  assumes "p < length (promises s)" "promises s ! p = None"
  shows "promises (timeout_callback p ms s) ! p = Some (Resolved [])"
    and "stockfish (timeout_callback p ms s) = None"
    and "isuciok (timeout_callback p ms s) = False"
    and "mode (timeout_callback p ms s) = Idle"
    and "posted (timeout_callback p ms s) = posted (terminate s)"
proof -
  let ?s2 = "(terminate s)\<lparr>console := console (terminate s) @
                 [Warn (''Stockfish evaluation timed out after '' @ show_int ms
                        @ ''ms, returning empty analysis.'')]\<rparr>"
  have pp: "p < length (promises ?s2)" "promises ?s2 ! p = None"
    using assms by (simp_all add: terminate_frame)
  have tc: "timeout_callback p ms s = ?s2\<lparr>promises := (promises ?s2)[p := Some (Resolved [])]\<rparr>"
    unfolding timeout_callback_def Let_def by (rule settle_pending[OF pp])
  show "promises (timeout_callback p ms s) ! p = Some (Resolved [])"
    unfolding tc using assms by (simp add: terminate_frame)
  show "stockfish (timeout_callback p ms s) = None"
    "isuciok (timeout_callback p ms s) = False"
    "mode (timeout_callback p ms s) = Idle"
    "posted (timeout_callback p ms s) = posted (terminate s)"
    unfolding tc by (simp_all add: terminate_result)
qed

text \<open>
  Claim C1, as the code has it. When the timeout of an \<open>evaluatePosition\<close> call expires
  while its promise is still pending, the promise is resolved (not rejected) with the empty
  list, whatever lines have been accumulated, and the session is torn down: \<open>quit\<close> goes to
  the worker if there is one, the worker handle is null, the ready flag false, the mode idle.
\<close>

theorem timeout_resolves_empty:
  assumes "expires i s" "snd (timers s ! i) = Timeout p ms"
    and "p < length (promises s)" "promises s ! p = None"
  shows "promises (fire R i s) ! p = Some (Resolved [])
    \<and> stockfish (fire R i s) = None
    \<and> isuciok (fire R i s) = False
    \<and> mode (fire R i s) = Idle
    \<and> posted (fire R i s)
        = posted s @ (case stockfish s of Some w \<Rightarrow> [(w, ''quit'')] | None \<Rightarrow> [])"
proof -
  let ?s1 = "s\<lparr>timers := take i (timers s) @ drop (Suc i) (timers s)\<rparr>"
  have f: "fire R i s = timeout_callback p ms ?s1"
    using assms(1,2) by (simp add: fire_def run_timer_def)
  have pp: "p < length (promises ?s1)" "promises ?s1 ! p = None"
    using assms(3,4) by simp_all
  have "posted (terminate ?s1)
      = posted s @ (case stockfish s of Some w \<Rightarrow> [(w, ''quit'')] | None \<Rightarrow> [])"
    by (simp add: terminate_posted)
  then show ?thesis
    unfolding f using timeout_callback_result[OF pp, of ms] by simp
qed

theorem timeout_resolves_empty_witness:
  "expires 0 (tick 29950 partial_session)
   \<and> snd (timers (tick 29950 partial_session) ! 0) = Timeout 0 30000
   \<and> 0 < length (promises (tick 29950 partial_session))
   \<and> promises (tick 29950 partial_session) ! 0 = None
   \<and> promises (fire opening_rules 0 (tick 29950 partial_session)) ! 0 = Some (Resolved [])
   \<and> stockfish (fire opening_rules 0 (tick 29950 partial_session)) = None
   \<and> isuciok (fire opening_rules 0 (tick 29950 partial_session)) = False
   \<and> mode (fire opening_rules 0 (tick 29950 partial_session)) = Idle"
proof -
  have h: "expires 0 (tick 29950 partial_session)"
    "snd (timers (tick 29950 partial_session) ! 0) = Timeout 0 30000"
    "0 < length (promises (tick 29950 partial_session))"
    "promises (tick 29950 partial_session) ! 0 = None"
    by code_simp+
  note c = timeout_resolves_empty[OF h, of opening_rules]
  from h c[THEN conjunct1] c[THEN conjunct2, THEN conjunct1]
    c[THEN conjunct2, THEN conjunct2, THEN conjunct1]
    c[THEN conjunct2, THEN conjunct2, THEN conjunct2, THEN conjunct1]
  show ?thesis by (intro conjI)
qed

text \<open>
  Claim C1 as stated fails: in the evaluating session that has accumulated one line, the
  timeout resolves the promise with the empty list, not with the accumulated line.
\<close>

theorem timeout_discards_accumulated_lines:
  "filter_Boolean (analysisLines partial_session)
     = [\<lparr>evaluation = Number (13 / 100), line = [''e4'', ''e5'', ''Nf3'']\<rparr>]
   \<and> timers partial_session = [(30000, Timeout 0 30000)]
   \<and> now partial_session = 50
   \<and> promises partial_session = [None]
   \<and> promises (fire opening_rules 0 (tick 29950 partial_session)) = [Some (Resolved [])]
   \<and> promises (fire opening_rules 0 (tick 29950 partial_session)) ! 0
       \<noteq> Some (Resolved (filter_Boolean (analysisLines partial_session)))"
proof -
  have 1: "filter_Boolean (analysisLines partial_session)
     = [\<lparr>evaluation = Number (13 / 100), line = [''e4'', ''e5'', ''Nf3'']\<rparr>]"
    by code_simp
  have 2: "timers partial_session = [(30000, Timeout 0 30000)]" by code_simp
  have n: "now partial_session = 50" by code_simp
  have 3: "promises partial_session = [None]" by code_simp
  have 4: "promises (fire opening_rules 0 (tick 29950 partial_session)) = [Some (Resolved [])]"
    by code_simp
  have 5: "promises (fire opening_rules 0 (tick 29950 partial_session)) ! 0
       \<noteq> Some (Resolved (filter_Boolean (analysisLines partial_session)))"
    unfolding 1 4 by simp
  from 1 2 n 3 4 5 show ?thesis by (intro conjI)
qed

section \<open>Properties of engine output handling\<close>

text \<open>
  \<open>split\<close> never returns an empty array, so the test \<open>pvLine.length > 0\<close> always
  succeeds.
\<close>

lemma split_ws_nonempty: "split_ws cur s \<noteq> []"
  by (induction cur s rule: split_ws.induct) auto

lemma emit_frame:
  "emit d s = s\<lparr>delivered := delivered s @ map (\<lambda>l. (l, d)) (listeners s)\<rparr>"
  by (simp add: emit_def)

text \<open>The handler on a line that matches the ranked-info pattern.\<close>

lemma handle_rank_update:
  assumes "message \<noteq> ''uciok''" "\<not> startsWith ''bestmove'' message"
    and "multipvMatch message = Some (g1, g2, g3, g4)"
    and "convertMovesToSAN R (split_ws [] (trim g4)) (fen R (heap s ! self)) s = (Inr sanLine, s')"
  shows "handleStockfishMessage R message options s =
     s'\<lparr>analysisLines :=
          array_set (analysisLines s) (parseInt g1 - 1)
            \<lparr>evaluation = adjustedEval g2 (parseInt g3) (sideToMove_of (fen R (heap s ! self))),
             line = sanLine\<rparr>,
        delivered := delivered s @
          map (\<lambda>l. (l, filter_Boolean
            (array_set (analysisLines s) (parseInt g1 - 1)
               \<lparr>evaluation = adjustedEval g2 (parseInt g3) (sideToMove_of (fen R (heap s ! self))),
                line = sanLine\<rparr>))) (listeners s)\<rparr>"
proof -
  from convertMovesToSAN_frame[OF assms(4)]
  have fr: "s' = s\<lparr>heap := heap s', console := console s'\<rparr>" by blast
  have f: "analysisLines s' = analysisLines s" "delivered s' = delivered s"
    "listeners s' = listeners s"
    by (subst fr, simp)+
  show ?thesis
    using assms split_ws_nonempty[of "[]" "trim g4"]
    by (simp add: handleStockfishMessage_def Let_def emit_frame f)
qed

lemma handle_bestmove:
  "message \<noteq> ''uciok'' \<Longrightarrow> startsWith ''bestmove'' message \<Longrightarrow>
     handleStockfishMessage R message options s = (if mode s = Stream then terminate s else s)"
  by (simp add: handleStockfishMessage_def)

lemma handle_no_match:
  "message \<noteq> ''uciok'' \<Longrightarrow> \<not> startsWith ''bestmove'' message \<Longrightarrow>
   multipvMatch message = None \<Longrightarrow>
     handleStockfishMessage R message options s = s"
  by (simp add: handleStockfishMessage_def)

lemma handle_conversion_throws:
  assumes "message \<noteq> ''uciok''" "\<not> startsWith ''bestmove'' message"
    and "multipvMatch message = Some (g1, g2, g3, g4)"
    and "convertMovesToSAN R (split_ws [] (trim g4)) (fen R (heap s ! self)) s = (Inl e, s')"
  shows "handleStockfishMessage R message options s = s'"
  using assms split_ws_nonempty[of "[]" "trim g4"]
  by (simp add: handleStockfishMessage_def Let_def)

text \<open>The second group of a match is one of the two score types.\<close>

lemma first_some_SomeD: "first_some f xs = Some y \<Longrightarrow> \<exists>x \<in> set xs. f x = Some y"
  by (induction xs) (auto split: option.splits)

lemma match_score_type:
  assumes "match_score s = Some (ty, g3, g4)"
  shows "ty = ''cp'' \<or> ty = ''mate''"
proof -
  from first_some_SomeD[OF assms[unfolded match_score_def]]
  obtain skipped s1 where
    "(case lit ''score '' s1 of None \<Rightarrow> None | Some s2 \<Rightarrow>
       first_some (\<lambda>ty.
         case lit ty s2 of None \<Rightarrow> None | Some s3 \<Rightarrow>
         (case lit '' '' s3 of None \<Rightarrow> None | Some s4 \<Rightarrow>
          (case match_value s4 of None \<Rightarrow> None | Some (g3, g4) \<Rightarrow> Some (ty, g3, g4))))
       [''cp'', ''mate'']) = Some (ty, g3, g4)"
    by auto
  then obtain s2 where
    "first_some (\<lambda>ty.
         case lit ty s2 of None \<Rightarrow> None | Some s3 \<Rightarrow>
         (case lit '' '' s3 of None \<Rightarrow> None | Some s4 \<Rightarrow>
          (case match_value s4 of None \<Rightarrow> None | Some (g3, g4) \<Rightarrow> Some (ty, g3, g4))))
       [''cp'', ''mate''] = Some (ty, g3, g4)"
    by (auto split: option.splits)
  from first_some_SomeD[OF this]
  obtain ty' where ty': "ty' \<in> set [''cp'', ''mate'']"
    and "(case lit ty' s2 of None \<Rightarrow> None | Some s3 \<Rightarrow>
         (case lit '' '' s3 of None \<Rightarrow> None | Some s4 \<Rightarrow>
          (case match_value s4 of None \<Rightarrow> None | Some (g3, g4) \<Rightarrow> Some (ty', g3, g4))))
       = Some (ty, g3, g4)"
    by blast
  then have "ty = ty'" by (auto split: option.splits)
  with ty' show ?thesis by auto
qed

lemma multipvMatch_type:
  assumes "multipvMatch message = Some (g1, g2, g3, g4)"
  shows "g2 = ''cp'' \<or> g2 = ''mate''"
proof -
  from first_some_SomeD[OF assms[unfolded multipvMatch_def]]
  obtain i where "match_here (drop i message) = Some (g1, g2, g3, g4)" by blast
  then obtain s1 where
    "first_some (\<lambda>(ws, s2).
        first_some (\<lambda>(g1, s3).
          case match_score s3 of None \<Rightarrow> None | Some (g2, g3, g4) \<Rightarrow> Some (g1, g2, g3, g4))
        (greedy is_digit 1 s2))
      (greedy is_space 1 s1) = Some (g1, g2, g3, g4)"
    by (auto simp: match_here_def split: option.splits)
  from first_some_SomeD[OF this]
  obtain ws s2 where
    "first_some (\<lambda>(g1, s3).
          case match_score s3 of None \<Rightarrow> None | Some (g2, g3, g4) \<Rightarrow> Some (g1, g2, g3, g4))
        (greedy is_digit 1 s2) = Some (g1, g2, g3, g4)"
    by auto
  from first_some_SomeD[OF this]
  obtain g1' s3 where
    "(case match_score s3 of None \<Rightarrow> None | Some (g2, g3, g4) \<Rightarrow> Some (g1', g2, g3, g4))
       = Some (g1, g2, g3, g4)"
    by auto
  then have "match_score s3 = Some (g2, g3, g4)" by (auto split: option.splits)
  then show ?thesis by (rule match_score_type)
qed

lemma array_set_nth:
  "0 \<le> i \<Longrightarrow> i < 4294967295 \<Longrightarrow> array_set xs i v ! nat i = Some v"
  by (simp add: array_set_def nth_append)

text \<open>
  Claim C3. For a line that matches the ranked-info pattern with a rank that is an array
  index, handled while the controller's own position loads, the slot of the rank holds a
  line whose evaluation is: for the score type \<open>cp\<close>, the number \<open>v / 100\<close> when White is to
  move and \<open>- v / 100\<close> when Black is; for the score type \<open>mate\<close>, the tag \<open>M\<close> followed
  by \<open>|v|\<close> when \<open>v > 0\<close> with White to move or \<open>v < 0\<close> with Black to move, and \<open>M-\<close>
  followed by \<open>|v|\<close> otherwise. The score type is one of the two, so a mate evaluation is
  a tag and never a number.
\<close>

theorem stored_evaluation_normalised:
  assumes "message \<noteq> ''uciok''" "\<not> startsWith ''bestmove'' message"
    and "multipvMatch message = Some (rank, ty, score, pv)"
    and "load R (fen R (heap s ! self)) = Some b"
    and "0 < parseInt rank" "parseInt rank < 4294967296"
  shows "\<exists>al. analysisLines (handleStockfishMessage R message options s) ! nat (parseInt rank - 1)
              = Some al
    \<and> (ty = ''cp'' \<or> ty = ''mate'')
    \<and> (ty = ''cp'' \<and> sideToMove_of (fen R (heap s ! self)) = Some ''w''
          \<longrightarrow> evaluation al = Number (of_int (parseInt score) / 100))
    \<and> (ty = ''cp'' \<and> sideToMove_of (fen R (heap s ! self)) = Some ''b''
          \<longrightarrow> evaluation al = Number (- (of_int (parseInt score) / 100)))
    \<and> (ty = ''mate''
         \<and> ((0 < parseInt score \<and> sideToMove_of (fen R (heap s ! self)) = Some ''w'')
              \<or> (parseInt score < 0 \<and> sideToMove_of (fen R (heap s ! self)) = Some ''b''))
          \<longrightarrow> evaluation al = Tag (''M'' @ show_int \<bar>parseInt score\<bar>))
    \<and> (ty = ''mate''
         \<and> \<not> ((0 < parseInt score \<and> sideToMove_of (fen R (heap s ! self)) = Some ''w'')
              \<or> (parseInt score < 0 \<and> sideToMove_of (fen R (heap s ! self)) = Some ''b''))
          \<longrightarrow> evaluation al = Tag (''M-'' @ show_int \<bar>parseInt score\<bar>))"
proof -
  let ?side = "sideToMove_of (fen R (heap s ! self))"
  from convertMovesToSAN_loaded[OF assms(4)]
  obtain sanLine s' where
    c: "convertMovesToSAN R (split_ws [] (trim pv)) (fen R (heap s ! self)) s = (Inr sanLine, s')"
    by blast
  let ?al = "\<lparr>evaluation = adjustedEval ty (parseInt score) ?side, line = sanLine\<rparr>"
  have i: "0 \<le> parseInt rank - 1" "parseInt rank - 1 < 4294967295"
    using assms(5,6) by simp_all
  have "analysisLines (handleStockfishMessage R message options s) ! nat (parseInt rank - 1)
      = Some ?al"
    unfolding handle_rank_update[OF assms(1,2,3) c]
    using array_set_nth[OF i, of "analysisLines s" ?al] by simp
  moreover have "ty = ''cp'' \<or> ty = ''mate''"
    using assms(3) by (rule multipvMatch_type)
  moreover have "ty = ''cp'' \<and> ?side = Some ''w''
          \<longrightarrow> evaluation ?al = Number (of_int (parseInt score) / 100)"
    by (simp add: adjustedEval_def)
  moreover have "ty = ''cp'' \<and> ?side = Some ''b''
          \<longrightarrow> evaluation ?al = Number (- (of_int (parseInt score) / 100))"
    by (simp add: adjustedEval_def)
  moreover have "ty = ''mate''
         \<and> ((0 < parseInt score \<and> ?side = Some ''w'') \<or> (parseInt score < 0 \<and> ?side = Some ''b''))
          \<longrightarrow> evaluation ?al = Tag (''M'' @ show_int \<bar>parseInt score\<bar>)"
    by (auto simp add: adjustedEval_def Let_def)
  moreover have "ty = ''mate''
         \<and> \<not> ((0 < parseInt score \<and> ?side = Some ''w'') \<or> (parseInt score < 0 \<and> ?side = Some ''b''))
          \<longrightarrow> evaluation ?al = Tag (''M-'' @ show_int \<bar>parseInt score\<bar>)"
    by (auto simp add: adjustedEval_def Let_def)
  ultimately show ?thesis by blast
qed

text \<open>
  The example of the specification: \<open>mate -1\<close> with Black to move is a mate for White of
  magnitude 1.
\<close>

theorem stored_evaluation_normalised_witness:
  "mate_line \<noteq> ''uciok''
   \<and> \<not> startsWith ''bestmove'' mate_line
   \<and> multipvMatch mate_line = Some (''1'', ''mate'', ''-1'', ''e7e5'')
   \<and> load opening_rules (fen opening_rules (heap black_to_move_session ! self)) = Some 1
   \<and> 0 < parseInt ''1'' \<and> parseInt ''1'' < 4294967296
   \<and> (\<exists>al. analysisLines
              (handleStockfishMessage opening_rules mate_line no_options black_to_move_session)
              ! nat (parseInt ''1'' - 1) = Some al
            \<and> evaluation al = Tag ''M1'')"
proof -
  have h1: "mate_line \<noteq> ''uciok''" by code_simp
  have h2: "\<not> startsWith ''bestmove'' mate_line" by code_simp
  have h3: "multipvMatch mate_line = Some (''1'', ''mate'', ''-1'', ''e7e5'')" by code_simp
  have h4: "load opening_rules (fen opening_rules (heap black_to_move_session ! self)) = Some 1"
    by code_simp
  have h5: "0 < parseInt ''1''" by code_simp
  have h6: "parseInt ''1'' < 4294967296" by code_simp
  have v: "parseInt ''-1'' < 0" by code_simp
  have sd: "sideToMove_of (fen opening_rules (heap black_to_move_session ! self)) = Some ''b''"
    by code_simp
  have sh: "''M'' @ show_int \<bar>parseInt ''-1''\<bar> = ''M1''" by code_simp
  from stored_evaluation_normalised[OF h1 h2 h3 h4 h5 h6, of no_options]
  obtain al where a: "analysisLines
              (handleStockfishMessage opening_rules mate_line no_options black_to_move_session)
              ! nat (parseInt ''1'' - 1) = Some al"
    and m: "''mate'' = ''mate''
         \<and> ((0 < parseInt ''-1''
               \<and> sideToMove_of (fen opening_rules (heap black_to_move_session ! self)) = Some ''w'')
              \<or> (parseInt ''-1'' < 0
               \<and> sideToMove_of (fen opening_rules (heap black_to_move_session ! self)) = Some ''b''))
          \<longrightarrow> evaluation al = Tag (''M'' @ show_int \<bar>parseInt ''-1''\<bar>)"
    by blast
  from m v sd have "evaluation al = Tag (''M'' @ show_int \<bar>parseInt ''-1''\<bar>)" by blast
  then have "evaluation al = Tag ''M1''" unfolding sh .
  with a have "\<exists>al. analysisLines
              (handleStockfishMessage opening_rules mate_line no_options black_to_move_session)
              ! nat (parseInt ''1'' - 1) = Some al
            \<and> evaluation al = Tag ''M1''"
    by blast
  with h1 h2 h3 h4 h5 h6 show ?thesis by (intro conjI)
qed

text \<open>
  Claim C7, at the line \<open>info depth 1 multipv 1 score cp 13 pv\<close> followed by two spaces,
  received in a streaming session with one subscriber. The line matches the pattern, its
  fourth group is one space and is empty after trimming, and splitting the empty string
  gives one empty move, so the guard on the length lets it through: slot 0 is written with a
  line of no moves and the subscriber is notified with it.
\<close>

theorem empty_pv_line_still_reported:
  "multipvMatch empty_pv_line = Some (''1'', ''cp'', ''13'', '' '')
   \<and> trim '' '' = []
   \<and> split_ws [] (trim '' '') = [[]]
   \<and> analysisLines streaming_ready = []
   \<and> delivered streaming_ready = []
   \<and> analysisLines (worker_message opening_rules 0 empty_pv_line streaming_ready)
       = [Some \<lparr>evaluation = Number (13 / 100), line = []\<rparr>]
   \<and> delivered (worker_message opening_rules 0 empty_pv_line streaming_ready)
       = [(7, [\<lparr>evaluation = Number (13 / 100), line = []\<rparr>])]"
proof -
  have 1: "multipvMatch empty_pv_line = Some (''1'', ''cp'', ''13'', '' '')" by code_simp
  have 2: "trim '' '' = []" by code_simp
  have 3: "split_ws [] (trim '' '') = [[]]" by code_simp
  have 4: "analysisLines streaming_ready = []" by code_simp
  have 5: "delivered streaming_ready = []" by code_simp
  have 6: "analysisLines (worker_message opening_rules 0 empty_pv_line streaming_ready)
       = [Some \<lparr>evaluation = Number (13 / 100), line = []\<rparr>]"
    by code_simp
  have 7: "delivered (worker_message opening_rules 0 empty_pv_line streaming_ready)
       = [(7, [\<lparr>evaluation = Number (13 / 100), line = []\<rparr>])]"
    by code_simp
  from 1 2 3 4 5 6 7 show ?thesis by (intro conjI)
qed

text \<open>No message changes a board that exists when it arrives.\<close>

lemma handle_heap:
  assumes "i < length (heap s)"
  shows "heap (handleStockfishMessage R message options s) ! i = heap s ! i
    \<and> length (heap s) \<le> length (heap (handleStockfishMessage R message options s))"
proof (cases "message = ''uciok''")
  case True
  obtain cfg where "setOptions options (s\<lparr>isuciok := True\<rparr>)
      = (s\<lparr>isuciok := True\<rparr>)\<lparr>posted := posted (s\<lparr>isuciok := True\<rparr>) @ cfg\<rparr>"
    using setOptions_frame by blast
  with True show ?thesis by (simp add: handle_uciok)
next
  case False
  show ?thesis
  proof (cases "startsWith ''bestmove'' message")
    case True
    with False show ?thesis by (simp add: handle_bestmove terminate_frame)
  next
    case nb: False
    show ?thesis
    proof (cases "multipvMatch message")
      case None
      with False nb show ?thesis by (simp add: handle_no_match)
    next
      case (Some g)
      obtain g1 g2 g3 g4 where g: "g = (g1, g2, g3, g4)" by (cases g)
      obtain r s' where
        c: "convertMovesToSAN R (split_ws [] (trim g4)) (fen R (heap s ! self)) s = (r, s')"
        by (cases "convertMovesToSAN R (split_ws [] (trim g4)) (fen R (heap s ! self)) s")
      from convertMovesToSAN_frame[OF c] assms
      have fr: "heap s' ! i = heap s ! i" "length (heap s) \<le> length (heap s')" by auto
      show ?thesis
      proof (cases r)
        case (Inl e)
        with c have "handleStockfishMessage R message options s = s'"
          using handle_conversion_throws[OF False nb Some[unfolded g]] by simp
        with fr show ?thesis by simp
      next
        case (Inr sanLine)
        with c have "heap (handleStockfishMessage R message options s) = heap s'"
          using handle_rank_update[OF False nb Some[unfolded g], of R s sanLine s' options]
          by simp
        with fr show ?thesis by simp
      qed
    qed
  qed
qed

text \<open>
  Claim C10. For every move list and every position string, \<open>convertMovesToSAN\<close> leaves
  the controller's own board, and so its FEN, as it was: the call changes only the heap
  beyond the controller's object (the board it constructs) and the console. Consequently
  handling any engine output line leaves the controller's own board and FEN unchanged.
\<close>

theorem translation_leaves_own_board:
  assumes "self < length (heap s)"
  shows "heap (snd (convertMovesToSAN R moves position s)) ! self = heap s ! self
    \<and> fen R (heap (snd (convertMovesToSAN R moves position s)) ! self) = fen R (heap s ! self)
    \<and> snd (convertMovesToSAN R moves position s)
        = s\<lparr>heap := heap (snd (convertMovesToSAN R moves position s)),
            console := console (snd (convertMovesToSAN R moves position s))\<rparr>
    \<and> heap (handleStockfishMessage R message options s) ! self = heap s ! self
    \<and> fen R (heap (handleStockfishMessage R message options s) ! self) = fen R (heap s ! self)"
proof -
  obtain r s' where c: "convertMovesToSAN R moves position s = (r, s')"
    by (cases "convertMovesToSAN R moves position s")
  from convertMovesToSAN_frame[OF c] assms
  have "heap s' ! self = heap s ! self" "s' = s\<lparr>heap := heap s', console := console s'\<rparr>"
    by auto
  with c handle_heap[OF assms, of R message options] show ?thesis by simp
qed

text \<open>
  Translating \<open>[e2e4, e7e5]\<close> on a new controller plays both moves on a second board and
  leaves the controller on the start position.
\<close>

theorem translation_leaves_own_board_witness:
  "self < length (heap fresh_engine)
   \<and> heap (snd (convertMovesToSAN opening_rules [''e2e4'', ''e7e5''] start_fen fresh_engine))
       = [0, 2]
   \<and> fen opening_rules
        (heap (snd (convertMovesToSAN opening_rules [''e2e4'', ''e7e5''] start_fen fresh_engine))
          ! self)
       = ''rnbqkbnr/pppppppp/8/8/8/8/PPPPPPPP/RNBQKBNR w KQkq - 0 1''
   \<and> fen opening_rules
        (heap (handleStockfishMessage opening_rules mate_line no_options fresh_engine) ! self)
       = ''rnbqkbnr/pppppppp/8/8/8/8/PPPPPPPP/RNBQKBNR w KQkq - 0 1''"
proof -
  have h: "self < length (heap fresh_engine)" by code_simp
  note t = translation_leaves_own_board
             [OF h, of opening_rules "[''e2e4'', ''e7e5'']" start_fen mate_line no_options]
  have f: "fen opening_rules (heap fresh_engine ! self)
      = ''rnbqkbnr/pppppppp/8/8/8/8/PPPPPPPP/RNBQKBNR w KQkq - 0 1''"
    by code_simp
  have 1: "heap (snd (convertMovesToSAN opening_rules [''e2e4'', ''e7e5''] start_fen fresh_engine))
       = [0, 2]"
    by code_simp
  have 2: "fen opening_rules
        (heap (snd (convertMovesToSAN opening_rules [''e2e4'', ''e7e5''] start_fen fresh_engine))
          ! self)
       = ''rnbqkbnr/pppppppp/8/8/8/8/PPPPPPPP/RNBQKBNR w KQkq - 0 1''"
    using t[THEN conjunct2, THEN conjunct1] f by (rule trans)
  have 3: "fen opening_rules
        (heap (handleStockfishMessage opening_rules mate_line no_options fresh_engine) ! self)
       = ''rnbqkbnr/pppppppp/8/8/8/8/PPPPPPPP/RNBQKBNR w KQkq - 0 1''"
    using t[THEN conjunct2, THEN conjunct2, THEN conjunct2, THEN conjunct2] f by (rule trans)
  from h 1 2 3 show ?thesis by (intro conjI)
qed

section \<open>Properties of the line snapshots\<close>

text \<open>
  \<open>filter(Boolean)\<close> lists the stored lines in ascending order of rank, without holes.
\<close>

lemma filter_Boolean_snoc:
  "filter_Boolean (xs @ [x]) = filter_Boolean xs @ (case x of None \<Rightarrow> [] | Some v \<Rightarrow> [v])"
  by (induction xs rule: filter_Boolean.induct) (auto split: option.splits)

lemma stored_snoc:
  "stored (xs @ [x]) r = (if r = Suc (length xs) then x else stored xs r)"
  by (auto simp: stored_def nth_append)

lemma stored_SomeD: "stored xs r = Some v \<Longrightarrow> 1 \<le> r \<and> r \<le> length xs"
  by (simp add: stored_def split: if_splits)

lemma finite_dom_stored: "finite (dom (stored xs))"
proof (rule finite_subset)
  show "dom (stored xs) \<subseteq> {1..length xs}" by (auto dest: stored_SomeD)
qed simp

lemma sorted_list_of_set_insert_max:
  assumes "finite A" "\<forall>a\<in>A. a < (m::nat)"
  shows "sorted_list_of_set (insert m A) = sorted_list_of_set A @ [m]"
proof -
  have "m \<notin> A" using assms(2) by auto
  with assms(1) have "sorted_list_of_set (insert m A) = insort m (sorted_list_of_set A)"
    by simp
  also have "\<dots> = sorted_list_of_set A @ [m]"
    using assms by (intro sorted_insort_is_snoc) (auto simp: less_imp_le)
  finally show ?thesis .
qed

lemma filter_Boolean_ascending: "filter_Boolean arr = ascending (stored arr)"
proof (induction arr rule: rev_induct)
  case Nil
  have "dom (stored ([] :: 'a option list)) = {}" by (auto simp: stored_def dom_def)
  then show ?case by (simp add: ascending_def)
next
  case (snoc x xs)
  have same: "map (\<lambda>r. the (stored (xs @ [x]) r)) (sorted_list_of_set (dom (stored xs)))
      = map (\<lambda>r. the (stored xs r)) (sorted_list_of_set (dom (stored xs)))"
  proof (rule map_cong[OF refl])
    fix r assume "r \<in> set (sorted_list_of_set (dom (stored xs)))"
    then have "r \<in> dom (stored xs)" using finite_dom_stored[of xs] by simp
    then have "r \<noteq> Suc (length xs)" by (auto dest: stored_SomeD)
    then show "the (stored (xs @ [x]) r) = the (stored xs r)" by (simp add: stored_snoc)
  qed
  have top: "stored xs (Suc (length xs)) = None"
    by (simp add: stored_def)
  show ?case
  proof (cases x)
    case None
    then have "dom (stored (xs @ [x])) = dom (stored xs)"
      using top by (auto simp: stored_snoc dom_def)
    with None snoc same show ?thesis by (simp add: filter_Boolean_snoc ascending_def)
  next
    case (Some v)
    then have d: "dom (stored (xs @ [x])) = insert (Suc (length xs)) (dom (stored xs))"
      by (auto simp: stored_snoc dom_def)
    have lt: "\<forall>a\<in>dom (stored xs). a < Suc (length xs)"
      by (auto dest: stored_SomeD)
    have "ascending (stored (xs @ [x]))
        = map (\<lambda>r. the (stored (xs @ [x]) r))
            (sorted_list_of_set (dom (stored xs)) @ [Suc (length xs)])"
      unfolding ascending_def d sorted_list_of_set_insert_max[OF finite_dom_stored lt] ..
    also have "\<dots> = ascending (stored xs) @ [v]"
      using same Some by (simp add: ascending_def stored_snoc)
    finally show ?thesis using Some snoc by (simp add: filter_Boolean_snoc)
  qed
qed

text \<open>An assignment at the index of a rank changes the line stored for that rank only.\<close>

lemma array_set_index:
  assumes "0 < r" "r < 4294967296"
  shows "array_set arr (r - 1) l =
     (if nat r - 1 < length arr then arr[nat r - 1 := Some l]
      else arr @ replicate (nat r - 1 - length arr) None @ [Some l])"
proof -
  have a: "\<not> r - 1 < 0" using assms(1) by linarith
  have b: "\<not> 4294967295 \<le> r - 1" using assms(2) by linarith
  have c: "nat (r - 1) = nat r - 1" using assms(1) by linarith
  show ?thesis unfolding array_set_def using a b c by simp
qed

lemma stored_update:
  "k < length arr \<Longrightarrow> stored (arr[k := Some l]) = (stored arr)(Suc k \<mapsto> l)"
proof
  fix q
  assume k: "k < length arr"
  show "stored (arr[k := Some l]) q = ((stored arr)(Suc k \<mapsto> l)) q"
  proof (cases "q = Suc k")
    case True
    with k show ?thesis by (simp add: stored_def)
  next
    case False
    then have "q - 1 \<noteq> k \<or> q = 0" by arith
    then show ?thesis using False by (auto simp: stored_def nth_list_update)
  qed
qed

lemma stored_extend:
  "stored (arr @ replicate n None @ [Some l]) = (stored arr)(Suc (length arr + n) \<mapsto> l)"
proof (induction n arbitrary: arr)
  case 0
  show ?case by (rule ext) (simp add: stored_snoc)
next
  case (Suc n)
  have "arr @ replicate (Suc n) None @ [Some l] = (arr @ [None]) @ replicate n None @ [Some l]"
    by simp
  also have "stored \<dots> = (stored (arr @ [None]))(Suc (length (arr @ [None]) + n) \<mapsto> l)"
    by (rule Suc.IH)
  also have "stored (arr @ [None]) = stored arr"
  proof
    fix q
    have "stored arr (Suc (length arr)) = None" by (simp add: stored_def)
    then show "stored (arr @ [None]) q = stored arr q" by (simp add: stored_snoc)
  qed
  finally show ?case by simp
qed

lemma stored_array_set:
  assumes "0 < r" "r < 4294967296"
  shows "stored (array_set arr (r - 1) l) = (stored arr)(nat r \<mapsto> l)"
proof (cases "nat r - 1 < length arr")
  case True
  have "Suc (nat r - 1) = nat r" using assms(1) by linarith
  with True show ?thesis
    by (simp add: array_set_index[OF assms] stored_update)
next
  case False
  then have "Suc (length arr + (nat r - 1 - length arr)) = nat r" using assms(1) by linarith
  with False show ?thesis
    by (simp add: array_set_index[OF assms] stored_extend)
qed

text \<open>The \<open>messageHandler\<close> of a pending call resolves with the snapshot on completion.\<close>

lemma messageHandler_resolves:
  assumes "startsWith ''bestmove'' data" "p < length (promises s)" "promises s ! p = None"
  shows "promises (messageHandler p data s) ! p
      = Some (Resolved (filter_Boolean (analysisLines s)))"
proof -
  let ?s1 = "clearTimeout p s"
  let ?s2 = "(case stockfish ?s1 of
                        Some w \<Rightarrow> removeEventListener w (MessageHandler p) ?s1
                      | None \<Rightarrow> ?s1)"
  have f2: "analysisLines ?s2 = analysisLines s" "promises ?s2 = promises s"
    by (simp_all add: clearTimeout_def removeEventListener_def split: option.splits)
  let ?fl = "filter_Boolean (analysisLines ?s2)"
  let ?s4 = "terminate (?s2\<lparr>lines := ?fl\<rparr>)"
  have pp: "p < length (promises ?s4)" "promises ?s4 ! p = None"
    using assms(2,3) f2(2) by (simp_all add: terminate_frame)
  have "messageHandler p data s = settle p (Resolved ?fl) ?s4"
    using assms(1) by (simp add: messageHandler_def Let_def)
  also have "\<dots> = ?s4\<lparr>promises := (promises ?s4)[p := Some (Resolved ?fl)]\<rparr>"
    by (rule settle_pending[OF pp])
  finally show ?thesis using pp(1) f2(1) by simp
qed

text \<open>
  A rank-update line posted by the worker of a session: the listener of the session stores
  the line at the index of its rank and notifies every subscriber with the snapshot; the
  \<open>messageHandler\<close> of an evaluation ignores the line.
\<close>

lemma worker_message_rank_update:
  assumes "self < length (heap s)" "load R (fen R (heap s ! self)) = Some b"
    and "w < length (workers s)" "alive (workers s ! w)"
    and "wlisteners (workers s ! w) = HandleStockfishMessage options # hs"
    and "hs = [] \<or> hs = [MessageHandler p]"
    and "rank_update_line m"
  shows "\<exists>h c al. worker_message R w m s =
      s\<lparr>heap := h, console := c,
        analysisLines := array_set (analysisLines s) (rank_of m - 1) al,
        delivered := delivered s @
          map (\<lambda>l. (l, filter_Boolean (array_set (analysisLines s) (rank_of m - 1) al)))
            (listeners s)\<rparr>
      \<and> self < length h \<and> h ! self = heap s ! self"
proof -
  from assms(7) obtain g where g: "multipvMatch m = Some g"
    and m: "m \<noteq> ''uciok''" "\<not> startsWith ''bestmove'' m"
    by (auto simp: rank_update_line_def)
  obtain g1 g2 g3 g4 where g': "g = (g1, g2, g3, g4)" by (cases g)
  have r: "rank_of m = parseInt g1" using g g' by (simp add: rank_of_def)
  from convertMovesToSAN_loaded[OF assms(2)]
  obtain sanLine s' where
    c: "convertMovesToSAN R (split_ws [] (trim g4)) (fen R (heap s ! self)) s = (Inr sanLine, s')"
    by blast
  from convertMovesToSAN_frame[OF c] assms(1)
  have fr: "s' = s\<lparr>heap := heap s', console := console s'\<rparr>"
    "self < length (heap s')" "heap s' ! self = heap s ! self"
    by auto
  let ?al = "\<lparr>evaluation = adjustedEval g2 (parseInt g3) (sideToMove_of (fen R (heap s ! self))),
             line = sanLine\<rparr>"
  let ?arr = "array_set (analysisLines s) (rank_of m - 1) ?al"
  let ?t = "s\<lparr>heap := heap s', console := console s', analysisLines := ?arr,
        delivered := delivered s @ map (\<lambda>l. (l, filter_Boolean ?arr)) (listeners s)\<rparr>"
  have h: "handleStockfishMessage R m options s = ?t"
    unfolding handle_rank_update[OF m g[unfolded g'] c] r
    by (subst fr(1)) simp
  have "worker_message R w m s = ?t"
    using assms(3,4,5,6) h m(2)
    by (auto simp: worker_message_def run_listener_def messageHandler_other)
  with fr(2,3) show ?thesis by blast
qed

lemma worker_messages_snoc:
  "worker_messages R w (msgs @ [m]) s = worker_message R w m (worker_messages R w msgs s)"
  by (simp add: worker_messages_def)

text \<open>
  Any sequence of rank-update lines: the ranks stored are those stored before and those
  reported, and each line has notified every subscriber with the snapshot of its moment.
\<close>

lemma worker_messages_rank_updates:
  assumes "self < length (heap s)" "load R (fen R (heap s ! self)) = Some b"
    and "w < length (workers s)" "alive (workers s ! w)"
    and "wlisteners (workers s ! w) = HandleStockfishMessage options # hs"
    and "hs = [] \<or> hs = [MessageHandler p]"
    and "\<forall>m \<in> set msgs. rank_update_line m"
  shows "(\<exists>h c a d. worker_messages R w msgs s =
            s\<lparr>heap := h, console := c, analysisLines := a, delivered := d\<rparr>
          \<and> self < length h \<and> h ! self = heap s ! self)
    \<and> dom (stored (analysisLines (worker_messages R w msgs s)))
        = dom (stored (analysisLines s)) \<union> (\<lambda>m. nat (rank_of m)) ` set msgs
    \<and> delivered (worker_messages R w msgs s)
        = delivered s @ concat (map (\<lambda>k. map (\<lambda>l. (l, filter_Boolean
              (analysisLines (worker_messages R w (take k msgs) s)))) (listeners s))
            [1 ..< Suc (length msgs)])"
  using assms(7)
proof (induction msgs rule: rev_induct)
  case Nil
  have "worker_messages R w [] s = s\<lparr>heap := heap s, console := console s,
      analysisLines := analysisLines s, delivered := delivered s\<rparr>"
    by (simp add: worker_messages_def)
  then have "\<exists>h c a d. worker_messages R w [] s =
            s\<lparr>heap := h, console := c, analysisLines := a, delivered := d\<rparr>
          \<and> self < length h \<and> h ! self = heap s ! self"
    using assms(1) by blast
  then show ?case by (simp add: worker_messages_def)
next
  case (snoc m msgs)
  let ?t = "worker_messages R w msgs s"
  let ?t' = "worker_messages R w (msgs @ [m]) s"
  from snoc.prems have ms: "\<forall>m \<in> set msgs. rank_update_line m" and m: "rank_update_line m"
    by simp_all
  from snoc.IH[OF ms] obtain h c a d where
    t: "?t = s\<lparr>heap := h, console := c, analysisLines := a, delivered := d\<rparr>"
    and h: "self < length h" "h ! self = heap s ! self"
    and dm: "dom (stored (analysisLines ?t))
        = dom (stored (analysisLines s)) \<union> (\<lambda>m. nat (rank_of m)) ` set msgs"
    and dl: "delivered ?t = delivered s @ concat (map (\<lambda>k. map (\<lambda>l. (l, filter_Boolean
              (analysisLines (worker_messages R w (take k msgs) s)))) (listeners s))
            [1 ..< Suc (length msgs)])"
    by blast
  have tf: "heap ?t = h" "workers ?t = workers s" "listeners ?t = listeners s"
    by (subst t, simp)+
  have pre: "self < length (heap ?t)" "load R (fen R (heap ?t ! self)) = Some b"
    "w < length (workers ?t)" "alive (workers ?t ! w)"
    "wlisteners (workers ?t ! w) = HandleStockfishMessage options # hs"
    using h assms(2,3,4,5) by (simp_all add: tf)
  from worker_message_rank_update[OF pre assms(6) m]
  obtain h' c' al where
    t': "worker_message R w m ?t =
      ?t\<lparr>heap := h', console := c',
        analysisLines := array_set (analysisLines ?t) (rank_of m - 1) al,
        delivered := delivered ?t @
          map (\<lambda>l. (l, filter_Boolean (array_set (analysisLines ?t) (rank_of m - 1) al)))
            (listeners ?t)\<rparr>"
    and h': "self < length h'" "h' ! self = heap ?t ! self"
    by blast
  have e: "?t' = worker_message R w m ?t" by (rule worker_messages_snoc)
  have a': "analysisLines ?t' = array_set (analysisLines ?t) (rank_of m - 1) al"
    unfolding e t' by simp
  have d': "delivered ?t'
      = delivered ?t @ map (\<lambda>l. (l, filter_Boolean (analysisLines ?t'))) (listeners s)"
    unfolding a' unfolding e t' by (simp add: tf)
  \<comment> \<open>the shape of the state\<close>
  have "?t' = s\<lparr>heap := h', console := c', analysisLines := analysisLines ?t',
      delivered := delivered ?t'\<rparr>"
    unfolding a' d' unfolding e t' by (subst t, simp add: tf)
  with h' h tf have 1: "\<exists>h c a d. ?t' =
            s\<lparr>heap := h, console := c, analysisLines := a, delivered := d\<rparr>
          \<and> self < length h \<and> h ! self = heap s ! self"
    by auto
  \<comment> \<open>the ranks stored\<close>
  from m have r: "0 < rank_of m" "rank_of m < 4294967296"
    by (simp_all add: rank_update_line_def)
  have 2: "dom (stored (analysisLines ?t'))
        = dom (stored (analysisLines s)) \<union> (\<lambda>m. nat (rank_of m)) ` set (msgs @ [m])"
    unfolding a' stored_array_set[OF r] using dm by auto
  \<comment> \<open>the notifications\<close>
  have pref: "map (\<lambda>k. map (\<lambda>l. (l, filter_Boolean
              (analysisLines (worker_messages R w (take k (msgs @ [m])) s)))) (listeners s))
            [1 ..< Suc (length msgs)]
      = map (\<lambda>k. map (\<lambda>l. (l, filter_Boolean
              (analysisLines (worker_messages R w (take k msgs) s)))) (listeners s))
            [1 ..< Suc (length msgs)]"
  proof (rule map_cong[OF refl])
    fix k assume "k \<in> set [1 ..< Suc (length msgs)]"
    then have "k \<le> length msgs" by auto
    then have "take k (msgs @ [m]) = take k msgs" by simp
    then show "map (\<lambda>l. (l, filter_Boolean
              (analysisLines (worker_messages R w (take k (msgs @ [m])) s)))) (listeners s)
        = map (\<lambda>l. (l, filter_Boolean
              (analysisLines (worker_messages R w (take k msgs) s)))) (listeners s)"
      by (simp only:)
  qed
  have up: "[1 ..< Suc (length (msgs @ [m]))] = [1 ..< Suc (length msgs)] @ [Suc (length msgs)]"
    by simp
  have full: "take (Suc (length msgs)) (msgs @ [m]) = msgs @ [m]" by simp
  have "concat (map (\<lambda>k. map (\<lambda>l. (l, filter_Boolean
              (analysisLines (worker_messages R w (take k (msgs @ [m])) s)))) (listeners s))
            [1 ..< Suc (length (msgs @ [m]))])
      = concat (map (\<lambda>k. map (\<lambda>l. (l, filter_Boolean
              (analysisLines (worker_messages R w (take k (msgs @ [m])) s)))) (listeners s))
            [1 ..< Suc (length msgs)])
        @ map (\<lambda>l. (l, filter_Boolean (analysisLines ?t'))) (listeners s)"
    by (simp only: up map_append concat_append list.map concat.simps append_Nil2 full)
  then have 3: "delivered ?t'
        = delivered s @ concat (map (\<lambda>k. map (\<lambda>l. (l, filter_Boolean
              (analysisLines (worker_messages R w (take k (msgs @ [m])) s)))) (listeners s))
            [1 ..< Suc (length (msgs @ [m]))])"
    by (simp only: d' dl pref append_assoc)
  from 1 2 3 show ?case by blast
qed

text \<open>
  Claim C4, as the code has it. In a session that starts with no lines, after any sequence
  of rank-update lines with 1-based ranks, in any order: the ranks with a stored line are
  exactly the ranks reported; the payload of each \<open>analysis\<close> notification is the list of
  the lines stored at that moment in ascending order of rank, without holes; and when the
  completion line then arrives in an evaluation whose promise is pending, the promise is
  resolved with that same list.
\<close>

theorem snapshots_list_stored_ranks_ascending:
  assumes "self < length (heap s)" "load R (fen R (heap s ! self)) = Some b"
    and "w < length (workers s)" "alive (workers s ! w)"
    and "wlisteners (workers s ! w) = HandleStockfishMessage options # hs"
    and "hs = [] \<or> hs = [MessageHandler p]"
    and "analysisLines s = []"
    and "list_all rank_update_line msgs"
  shows "dom (stored (analysisLines (worker_messages R w msgs s)))
        = (\<lambda>m. nat (rank_of m)) ` set msgs
    \<and> delivered (worker_messages R w msgs s)
        = delivered s @ concat (map (\<lambda>k. map (\<lambda>l. (l, ascending (stored
              (analysisLines (worker_messages R w (take k msgs) s))))) (listeners s))
            [1 ..< Suc (length msgs)])
    \<and> (hs = [MessageHandler p] \<and> mode s = Evaluate
         \<and> p < length (promises s) \<and> promises s ! p = None \<and> startsWith ''bestmove'' data
        \<longrightarrow> promises (worker_message R w data (worker_messages R w msgs s)) ! p
             = Some (Resolved (ascending (stored (analysisLines (worker_messages R w msgs s))))))"
proof -
  let ?t = "worker_messages R w msgs s"
  from assms(8) have ms: "\<forall>m \<in> set msgs. rank_update_line m" by (simp add: list_all_iff)
  from worker_messages_rank_updates[OF assms(1-6) ms]
  obtain h c a d where
    t: "?t = s\<lparr>heap := h, console := c, analysisLines := a, delivered := d\<rparr>"
    and dm: "dom (stored (analysisLines ?t))
        = dom (stored (analysisLines s)) \<union> (\<lambda>m. nat (rank_of m)) ` set msgs"
    and dl: "delivered ?t = delivered s @ concat (map (\<lambda>k. map (\<lambda>l. (l, filter_Boolean
              (analysisLines (worker_messages R w (take k msgs) s)))) (listeners s))
            [1 ..< Suc (length msgs)])"
    by blast
  have "dom (stored (analysisLines s)) = {}"
    unfolding assms(7) by (auto simp: stored_def dom_def)
  with dm have 1: "dom (stored (analysisLines ?t)) = (\<lambda>m. nat (rank_of m)) ` set msgs" by simp
  have 2: "delivered ?t = delivered s @ concat (map (\<lambda>k. map (\<lambda>l. (l, ascending (stored
              (analysisLines (worker_messages R w (take k msgs) s))))) (listeners s))
            [1 ..< Suc (length msgs)])"
    using dl by (simp only: filter_Boolean_ascending)
  have 3: "promises (worker_message R w data ?t) ! p
             = Some (Resolved (ascending (stored (analysisLines ?t))))"
    if hs: "hs = [MessageHandler p]" and ev: "mode s = Evaluate"
      and pp: "p < length (promises s)" "promises s ! p = None"
      and bm: "startsWith ''bestmove'' data"
  proof -
    have tf: "workers ?t = workers s" "mode ?t = mode s" "promises ?t = promises s"
      by (subst t, simp)+
    from bm uciok_not_bestmove have nu: "data \<noteq> ''uciok''" by auto
    have hb: "handleStockfishMessage R data options ?t = ?t"
      using handle_bestmove[OF nu bm, of R options ?t] ev tf(2) by simp
    have "worker_message R w data ?t = messageHandler p data ?t"
      using assms(3,4,5) hs hb by (simp add: worker_message_def run_listener_def tf(1))
    moreover have "promises (messageHandler p data ?t) ! p
        = Some (Resolved (filter_Boolean (analysisLines ?t)))"
      by (rule messageHandler_resolves[OF bm]) (simp_all add: tf(3) pp)
    ultimately show ?thesis by (simp only: filter_Boolean_ascending)
  qed
  show ?thesis
  proof (intro conjI impI)
    show "dom (stored (analysisLines ?t)) = (\<lambda>m. nat (rank_of m)) ` set msgs" by (rule 1)
    show "delivered ?t = delivered s @ concat (map (\<lambda>k. map (\<lambda>l. (l, ascending (stored
              (analysisLines (worker_messages R w (take k msgs) s))))) (listeners s))
            [1 ..< Suc (length msgs)])"
      by (rule 2)
    assume "hs = [MessageHandler p] \<and> mode s = Evaluate
         \<and> p < length (promises s) \<and> promises s ! p = None \<and> startsWith ''bestmove'' data"
    then show "promises (worker_message R w data ?t) ! p
             = Some (Resolved (ascending (stored (analysisLines ?t))))"
      by (elim conjE) (rule 3)
  qed
qed

text \<open>
  Rank 2 reports before rank 1; the completion line resolves the promise with the line of
  rank 1 followed by the line of rank 2.
\<close>

theorem snapshots_list_stored_ranks_ascending_witness:
  "self < length (heap evaluating_session)
   \<and> load opening_rules (fen opening_rules (heap evaluating_session ! self)) = Some 0
   \<and> 0 < length (workers evaluating_session)
   \<and> alive (workers evaluating_session ! 0)
   \<and> wlisteners (workers evaluating_session ! 0)
       = [HandleStockfishMessage multipv_options, MessageHandler 0]
   \<and> analysisLines evaluating_session = []
   \<and> list_all rank_update_line out_of_order_lines
   \<and> mode evaluating_session = Evaluate
   \<and> promises evaluating_session = [None]
   \<and> startsWith ''bestmove'' ''bestmove e2e4''
   \<and> promises (worker_message opening_rules 0 ''bestmove e2e4''
                 (worker_messages opening_rules 0 out_of_order_lines evaluating_session)) ! 0
       = Some (Resolved [\<lparr>evaluation = Number (13 / 100), line = [''e4'', ''e5'']\<rparr>,
                         \<lparr>evaluation = Number (- 5 / 100), line = [''d4'']\<rparr>])"
proof -
  have h1: "self < length (heap evaluating_session)" by code_simp
  have h2: "load opening_rules (fen opening_rules (heap evaluating_session ! self)) = Some 0"
    by code_simp
  have h3: "0 < length (workers evaluating_session)" by code_simp
  have h4: "alive (workers evaluating_session ! 0)" by code_simp
  have h5: "wlisteners (workers evaluating_session ! 0)
       = [HandleStockfishMessage multipv_options, MessageHandler 0]"
    by code_simp
  have h6: "[MessageHandler 0] = [] \<or> [MessageHandler 0] = [MessageHandler 0]" by simp
  have h7: "analysisLines evaluating_session = []" by code_simp
  have h8: "list_all rank_update_line out_of_order_lines" by code_simp
  have m: "mode evaluating_session = Evaluate" by code_simp
  have p: "promises evaluating_session = [None]" by code_simp
  have bm: "startsWith ''bestmove'' ''bestmove e2e4''" by code_simp
  have pp: "0 < length (promises evaluating_session)" "promises evaluating_session ! 0 = None"
    unfolding p by simp_all
  note t = snapshots_list_stored_ranks_ascending
             [OF h1 h2 h3 h4 h5 h6 h7 h8, where data = "''bestmove e2e4''"]
  have "promises (worker_message opening_rules 0 ''bestmove e2e4''
                 (worker_messages opening_rules 0 out_of_order_lines evaluating_session)) ! 0
      = Some (Resolved (ascending (stored (analysisLines
          (worker_messages opening_rules 0 out_of_order_lines evaluating_session)))))"
    using t[THEN conjunct2, THEN conjunct2] m pp bm by blast
  moreover have "filter_Boolean (analysisLines
          (worker_messages opening_rules 0 out_of_order_lines evaluating_session))
      = [\<lparr>evaluation = Number (13 / 100), line = [''e4'', ''e5'']\<rparr>,
         \<lparr>evaluation = Number (- 5 / 100), line = [''d4'']\<rparr>]"
    by code_simp
  ultimately have r: "promises (worker_message opening_rules 0 ''bestmove e2e4''
                 (worker_messages opening_rules 0 out_of_order_lines evaluating_session)) ! 0
       = Some (Resolved [\<lparr>evaluation = Number (13 / 100), line = [''e4'', ''e5'']\<rparr>,
                         \<lparr>evaluation = Number (- 5 / 100), line = [''d4'']\<rparr>])"
    by (simp only: filter_Boolean_ascending[symmetric])
  from h1 h2 h3 h4 h5 h7 h8 m p bm r show ?thesis by (intro conjI)
qed

text \<open>
  Claim C4 as stated fails for the array with which \<open>evaluatePosition\<close> resolves on a
  timeout: two ranks have reported and their lines are stored, and the promise is resolved
  with the empty list.
\<close>

theorem timeout_snapshot_not_stored_lines:
  "filter_Boolean (analysisLines out_of_order_session)
     = [\<lparr>evaluation = Number (13 / 100), line = [''e4'', ''e5'']\<rparr>,
        \<lparr>evaluation = Number (- 5 / 100), line = [''d4'']\<rparr>]
   \<and> timers out_of_order_session = [(30000, Timeout 0 30000)]
   \<and> now out_of_order_session = 50
   \<and> promises out_of_order_session = [None]
   \<and> promises (fire opening_rules 0 (tick 29950 out_of_order_session)) = [Some (Resolved [])]
   \<and> promises (fire opening_rules 0 (tick 29950 out_of_order_session)) ! 0
       \<noteq> Some (Resolved (filter_Boolean (analysisLines out_of_order_session)))"
proof -
  have 1: "filter_Boolean (analysisLines out_of_order_session)
     = [\<lparr>evaluation = Number (13 / 100), line = [''e4'', ''e5'']\<rparr>,
        \<lparr>evaluation = Number (- 5 / 100), line = [''d4'']\<rparr>]"
    by code_simp
  have 2: "timers out_of_order_session = [(30000, Timeout 0 30000)]" by code_simp
  have n: "now out_of_order_session = 50" by code_simp
  have 3: "promises out_of_order_session = [None]" by code_simp
  have 4: "promises (fire opening_rules 0 (tick 29950 out_of_order_session))
      = [Some (Resolved [])]"
    by code_simp
  have 5: "promises (fire opening_rules 0 (tick 29950 out_of_order_session)) ! 0
       \<noteq> Some (Resolved (filter_Boolean (analysisLines out_of_order_session)))"
    unfolding 1 4 by simp
  from 1 2 n 3 4 5 show ?thesis by (intro conjI)
qed

end
